theory Spec2Isabelle
  imports Main
begin

section \<open>Common data of the PostgreSQL adapters\<close>

text \<open>
  A JavaScript exception is either an \<open>Error\<close> object, which carries a message, or any
  other thrown value, which has no \<open>message\<close> property.
\<close>

datatype js_error = Error string | Thrown string

text \<open>A result row: column name to value, \<open>None\<close> for SQL null.\<close>

type_synonym row = "(string \<times> string option) list"

text \<open>
  The calls an adapter makes on its driver. \<open>Query\<close> is \<open>pgClient.query\<close>,
  \<open>pglite.query\<close> and \<open>sql.unsafe\<close> (statement text and bound values), \<open>Exec\<close> is
  \<open>pglite.exec\<close>. \<open>NativeBegin\<close> and \<open>NativeEnd\<close> record the entry into and the
  settling of the driver's own transaction primitive (\<open>pglite.transaction\<close>,
  \<open>sql.begin\<close>): what the driver sends to the server inside that primitive is the
  driver's business and is not code of the adapters.
\<close>

datatype driver_call =
    Query string "string list"
  | Exec string
  | NativeBegin
  | NativeEnd bool

type_synonym call_log = "driver_call list"

text \<open>
  The driver together with the server behind it: whether a call made after a given
  history of calls is rejected, and the rows it returns otherwise.
\<close>

type_synonym driver = "call_log \<Rightarrow> driver_call \<Rightarrow> js_error + row list"

definition issue :: "driver \<Rightarrow> call_log \<Rightarrow> driver_call \<Rightarrow> (js_error + row list) \<times> call_log" where
  "issue drv log call = (drv log call, log @ [call])"

text \<open>
  A user callback receives its client and the calls made so far (so that it can see
  what the server has been told) and returns its outcome together with the calls it
  made itself; these are appended to the history.
\<close>

definition run_callback ::
  "('c \<Rightarrow> call_log \<Rightarrow> (js_error + 'a) \<times> call_log) \<Rightarrow> 'c \<Rightarrow> call_log \<Rightarrow> (js_error + 'a) \<times> call_log" where
  "run_callback callback client log = (case callback client log of (r, made) \<Rightarrow> (r, log @ made))"

text \<open>A number inside a template literal: its decimal digits.\<close>

definition digit_char :: "nat \<Rightarrow> char" where
  "digit_char d = ''0123456789'' ! d"

function string_of_nat :: "nat \<Rightarrow> string" where
  "string_of_nat n =
     (if n < 10 then [digit_char n]
      else string_of_nat (n div 10) @ [digit_char (n mod 10)])"
  by pat_completeness auto
termination
  by (relation "measure id") auto

text \<open>\<open>Array.prototype.join\<close>.\<close>

fun join :: "string \<Rightarrow> string list \<Rightarrow> string" where
  "join sep [] = []"
| "join sep [x] = x"
| "join sep (x # y # ys) = x @ sep @ join sep (y # ys)"

text \<open>
  \<open>JSON.stringify\<close> on an array of two-element string arrays. A string is quoted, with
  the quotation mark, the reverse solidus and the control characters escaped.
\<close>

definition hex_digit :: "nat \<Rightarrow> char" where
  "hex_digit d = ''0123456789abcdef'' ! d"

definition json_escape_char :: "char \<Rightarrow> string" where
  "json_escape_char c =
     (if c = CHR 0x22 then [CHR 0x5C, CHR 0x22]
      else if c = CHR 0x5C then [CHR 0x5C, CHR 0x5C]
      else if c = CHR 0x08 then [CHR 0x5C, CHR ''b'']
      else if c = CHR 0x0C then [CHR 0x5C, CHR ''f'']
      else if c = CHR 0x0A then [CHR 0x5C, CHR ''n'']
      else if c = CHR 0x0D then [CHR 0x5C, CHR ''r'']
      else if c = CHR 0x09 then [CHR 0x5C, CHR ''t'']
      else if (of_char c :: nat) < 32
        then [CHR 0x5C, CHR ''u'', CHR ''0'', CHR ''0'',
              hex_digit ((of_char c :: nat) div 16), hex_digit ((of_char c :: nat) mod 16)]
      else [c])"

definition json_string :: "string \<Rightarrow> string" where
  "json_string s = CHR 0x22 # concat (map json_escape_char s) @ [CHR 0x22]"

definition json_pair :: "string \<times> string \<Rightarrow> string" where
  "json_pair kv = ''['' @ json_string (fst kv) @ '','' @ json_string (snd kv) @ '']''"

definition JSON_stringify :: "(string \<times> string) list \<Rightarrow> string" where
  "JSON_stringify entries = ''['' @ join '','' (map json_pair entries) @ '']''"

text \<open>
  A settings object \<open>Record<string, string | undefined> | null\<close>: \<open>None\<close> is
  \<open>null\<close>; otherwise the own properties in \<open>Object.entries\<close> order, a value
  \<open>None\<close> standing for \<open>undefined\<close> or \<open>null\<close>.
\<close>

type_synonym pg_settings = "(string \<times> string option) list option"

text \<open>
  The loop that fills \<open>pgSettingsEntries\<close> in all three adapters: entries whose value
  is \<open>null\<close> or \<open>undefined\<close> are skipped.
\<close>

fun non_null_entries :: "(string \<times> string option) list \<Rightarrow> (string \<times> string) list" where
  "non_null_entries [] = []"
| "non_null_entries ((key, None) # kvs) = non_null_entries kvs"
| "non_null_entries ((key, Some v) # kvs) = (key, v) # non_null_entries kvs"

text \<open>
  The statement text each adapter passes to its driver to apply settings: the string
  literal of \<open>makeNodePostgresWithPgClient_inner\<close> (node-postgres), of
  \<open>createPostgresJsAdapter\<close> (postgres.js) and of \<open>createPGLiteAdapter\<close> (PGlite, which
  uses it a second time to restore the previous values).
\<close>

definition np_set_config_sql :: string where
  "np_set_config_sql = ''select set_config(el->>0, el->>1, true) from json_array_elements($1::json) el''"

definition pj_set_config_sql :: string where
  "pj_set_config_sql = ''SELECT set_config(el->>0, el->>1, true) FROM json_array_elements($1::json) el''"

definition pl_set_config_sql :: string where
  "pl_set_config_sql = ''SELECT set_config(el->>0, el->>1, false) FROM json_array_elements($1::json) el''"

section \<open>The node-postgres adapter\<close>

record pg_client =
  txLevel :: nat
  alwaysQueue :: bool
  alreadyInTransaction :: bool

text \<open>
  \<open>createNodePostgresPgClient(...).withTransaction\<close>. The per-client promise queue only
  orders concurrent callers and is not part of this sequential model.
\<close>

definition np_withTransaction ::
  "driver \<Rightarrow> pg_client \<Rightarrow> (pg_client \<Rightarrow> call_log \<Rightarrow> (js_error + 'a) \<times> call_log)
     \<Rightarrow> call_log \<Rightarrow> (js_error + 'a) \<times> call_log" where
  "np_withTransaction drv c callback log0 =
     (case issue drv log0
             (if txLevel c = 0 \<and> \<not> alreadyInTransaction c then Query ''begin'' []
              else Query (''savepoint tx'' @ (if txLevel c = 0 then [] else string_of_nat (txLevel c))) [])
      of
        (Inl e0, log1) \<Rightarrow> (Inl e0, log1)
      | (Inr _, log1) \<Rightarrow>
          (case
             (case run_callback callback (c\<lparr>txLevel := txLevel c + 1\<rparr>) log1 of
                (Inl e, log2) \<Rightarrow> (Inl e, log2)
              | (Inr innerResult, log2) \<Rightarrow>
                  (case issue drv log2
                          (if txLevel c = 0 \<and> \<not> alreadyInTransaction c then Query ''commit'' []
                           else Query (''release savepoint tx'' @
                                  (if txLevel c = 0 then [] else string_of_nat (txLevel c))) [])
                   of
                     (Inl e, log3) \<Rightarrow> (Inl e, log3)
                   | (Inr _, log3) \<Rightarrow> (Inr innerResult, log3)))
           of
             (Inr innerResult, log3) \<Rightarrow> (Inr innerResult, log3)
           | (Inl e, log3) \<Rightarrow>
               (case issue drv log3
                       (if txLevel c = 0 \<and> \<not> alreadyInTransaction c then Query ''rollback'' []
                        else Query (''rollback to savepoint tx'' @
                               (if txLevel c = 0 then [] else string_of_nat (txLevel c))) [])
                of
                  (_, log4) \<Rightarrow> (Inl e, log4))))"

text \<open>
  \<open>makeNodePostgresWithPgClient_inner\<close>. The rollback in its \<open>catch\<close> block is awaited
  without a \<open>try\<close> of its own, so an error of the rollback leaves the block in place
  of \<open>e\<close>.
\<close>

definition makeNodePostgresWithPgClient_inner ::
  "driver \<Rightarrow> pg_settings \<Rightarrow> (pg_client \<Rightarrow> call_log \<Rightarrow> (js_error + 'a) \<times> call_log)
     \<Rightarrow> bool \<Rightarrow> bool \<Rightarrow> call_log \<Rightarrow> (js_error + 'a) \<times> call_log" where
  "makeNodePostgresWithPgClient_inner drv pgSettings callback alwaysQ alreadyInTx log0 =
     (let pgSettingsEntries = (case pgSettings of None \<Rightarrow> [] | Some kvs \<Rightarrow> non_null_entries kvs)
      in
      if length pgSettingsEntries > 0 then
        (case issue drv log0 (Query (if alreadyInTx then ''savepoint tx'' else ''begin'') []) of
           (Inl e0, log1) \<Rightarrow> (Inl e0, log1)
         | (Inr _, log1) \<Rightarrow>
             (case
                (case issue drv log1
                        (Query np_set_config_sql
                               [JSON_stringify pgSettingsEntries])
                 of
                   (Inl e, log2) \<Rightarrow> (Inl e, log2)
                 | (Inr _, log2) \<Rightarrow>
                     (case run_callback callback \<lparr>txLevel = 1, alwaysQueue = alwaysQ,
                                      alreadyInTransaction = alreadyInTx\<rparr> log2 of
                        (Inl e, log3) \<Rightarrow> (Inl e, log3)
                      | (Inr result, log3) \<Rightarrow>
                          (case issue drv log3
                                  (Query (if alreadyInTx then ''release savepoint tx'' else ''commit'') [])
                           of
                             (Inl e, log4) \<Rightarrow> (Inl e, log4)
                           | (Inr _, log4) \<Rightarrow> (Inr result, log4))))
              of
                (Inr result, log4) \<Rightarrow> (Inr result, log4)
              | (Inl e, log4) \<Rightarrow>
                  (case issue drv log4
                          (Query (if alreadyInTx then ''rollback to savepoint tx'' else ''rollback'') [])
                   of
                     (Inl e2, log5) \<Rightarrow> (Inl e2, log5)
                   | (Inr _, log5) \<Rightarrow> (Inl e, log5))))
      else
        run_callback callback \<lparr>txLevel = 0, alwaysQueue = alwaysQ, alreadyInTransaction = alreadyInTx\<rparr> log0)"

text \<open>\<open>createPgPoolFromPool(pool).withPgClient\<close>: the inner envelope, not queued, not in a transaction.\<close>

definition np_withPgClient ::
  "driver \<Rightarrow> pg_settings \<Rightarrow> (pg_client \<Rightarrow> call_log \<Rightarrow> (js_error + 'a) \<times> call_log)
     \<Rightarrow> call_log \<Rightarrow> (js_error + 'a) \<times> call_log" where
  "np_withPgClient drv pgSettings callback log0 =
     makeNodePostgresWithPgClient_inner drv pgSettings callback False False log0"

section \<open>The drivers' own transaction primitive\<close>

text \<open>
  \<open>pglite.transaction(fn)\<close> and \<open>sql.begin(fn)\<close> belong to the drivers. The adapters
  only hand them a function; the model records the entry, runs the function, records
  the settling (\<open>True\<close> when the function returned, \<open>False\<close> when it threw) and lets
  the driver reject either step with an error of its own.
\<close>

definition native_transaction ::
  "driver \<Rightarrow> (call_log \<Rightarrow> (js_error + 'a) \<times> call_log) \<Rightarrow> call_log \<Rightarrow> (js_error + 'a) \<times> call_log" where
  "native_transaction drv body log0 =
     (case issue drv log0 NativeBegin of
        (Inl e0, log1) \<Rightarrow> (Inl e0, log1)
      | (Inr _, log1) \<Rightarrow>
          (case body log1 of
             (r, log2) \<Rightarrow>
               (case issue drv log2 (NativeEnd (case r of Inl _ \<Rightarrow> False | Inr _ \<Rightarrow> True)) of
                  (Inl e1, log3) \<Rightarrow> (Inl e1, log3)
                | (Inr _, log3) \<Rightarrow> (r, log3))))"

section \<open>The PGlite adapter\<close>

record pglite_client =
  pl_txLevel :: nat
  pl_alreadyInTransaction :: bool

text \<open>
  \<open>createPGlitePgClient(...).withTransaction\<close>: the driver's transaction primitive at
  level 0, savepoints through \<open>pglite.exec\<close> otherwise.
\<close>

definition pglite_withTransaction ::
  "driver \<Rightarrow> pglite_client \<Rightarrow> (pglite_client \<Rightarrow> call_log \<Rightarrow> (js_error + 'a) \<times> call_log)
     \<Rightarrow> call_log \<Rightarrow> (js_error + 'a) \<times> call_log" where
  "pglite_withTransaction drv c callback log0 =
     (if pl_txLevel c = 0 \<and> \<not> pl_alreadyInTransaction c then
        native_transaction drv
          (run_callback callback \<lparr>pl_txLevel = 1, pl_alreadyInTransaction = False\<rparr>) log0
      else
        (case issue drv log0
                (Exec (''SAVEPOINT tx'' @ (if pl_txLevel c = 0 then [] else string_of_nat (pl_txLevel c))))
         of
           (Inl e0, log1) \<Rightarrow> (Inl e0, log1)
         | (Inr _, log1) \<Rightarrow>
             (case
                (case run_callback callback (c\<lparr>pl_txLevel := pl_txLevel c + 1\<rparr>) log1 of
                   (Inl e, log2) \<Rightarrow> (Inl e, log2)
                 | (Inr result, log2) \<Rightarrow>
                     (case issue drv log2
                             (Exec (''RELEASE SAVEPOINT tx'' @
                                (if pl_txLevel c = 0 then [] else string_of_nat (pl_txLevel c))))
                      of
                        (Inl e, log3) \<Rightarrow> (Inl e, log3)
                      | (Inr _, log3) \<Rightarrow> (Inr result, log3)))
              of
                (Inr result, log3) \<Rightarrow> (Inr result, log3)
              | (Inl e, log3) \<Rightarrow>
                  (case issue drv log3
                          (Exec (''ROLLBACK TO SAVEPOINT tx'' @
                             (if pl_txLevel c = 0 then [] else string_of_nat (pl_txLevel c))))
                   of
                     (_, log4) \<Rightarrow> (Inl e, log4)))))"

text \<open>\<open>result.rows[0]?.value ?? null\<close>.\<close>

definition first_value :: "row list \<Rightarrow> string option" where
  "first_value rs =
     (case rs of
        [] \<Rightarrow> None
      | r # _ \<Rightarrow> (case map_of r ''value'' of None \<Rightarrow> None | Some v \<Rightarrow> v))"

text \<open>
  The loop that records the current value of every key bound to a non-null value
  (\<open>originalSettings\<close>). A failing probe leaves \<open>withPgClient\<close> at once: the loop stands
  before the \<open>try\<close>.
\<close>

fun capture_original ::
  "driver \<Rightarrow> (string \<times> string option) list \<Rightarrow> call_log
     \<Rightarrow> (js_error + (string \<times> string option) list) \<times> call_log" where
  "capture_original drv [] log = (Inr [], log)"
| "capture_original drv ((key, None) # kvs) log = capture_original drv kvs log"
| "capture_original drv ((key, Some v) # kvs) log =
     (case issue drv log (Query ''SELECT current_setting($1, true) as value'' [key]) of
        (Inl e, log1) \<Rightarrow> (Inl e, log1)
      | (Inr rs, log1) \<Rightarrow>
          (case capture_original drv kvs log1 of
             (Inl e, log2) \<Rightarrow> (Inl e, log2)
           | (Inr rest, log2) \<Rightarrow> (Inr ((key, first_value rs) # rest), log2)))"

text \<open>\<open>key.replace(/"/g, '""')\<close>\<close>

definition escape_double_quotes :: "string \<Rightarrow> string" where
  "escape_double_quotes s = concat (map (\<lambda>ch. if ch = CHR 0x22 then [CHR 0x22, CHR 0x22] else [ch]) s)"

text \<open>
  The \<open>RESET\<close> loop of the \<open>finally\<close> block, over \<open>originalSettings\<close>: a key whose
  recorded value was null and whose setting is non-null is reset. The first failing
  \<open>RESET\<close> ends the loop with its error.
\<close>

fun reset_nulls ::
  "driver \<Rightarrow> (string \<times> string option) list \<Rightarrow> (string \<times> string option) list \<Rightarrow> call_log
     \<Rightarrow> js_error option \<times> call_log" where
  "reset_nulls drv settings [] log = (None, log)"
| "reset_nulls drv settings ((key, v) # rest) log =
     (if v = None \<and> (case map_of settings key of Some (Some _) \<Rightarrow> True | _ \<Rightarrow> False) then
        (case issue drv log (Exec (''RESET '' @ [CHR 0x22] @ escape_double_quotes key @ [CHR 0x22])) of
           (Inl e, log1) \<Rightarrow> (Some e, log1)
         | (Inr _, log1) \<Rightarrow> reset_nulls drv settings rest log1)
      else reset_nulls drv settings rest log)"

text \<open>The \<open>finally\<close> block of the PGlite envelope; \<open>Some e\<close> when it throws.\<close>

definition restore_settings ::
  "driver \<Rightarrow> (string \<times> string option) list \<Rightarrow> (string \<times> string option) list \<Rightarrow> call_log
     \<Rightarrow> js_error option \<times> call_log" where
  "restore_settings drv settings originalSettings log =
     (if length originalSettings > 0 then
        (let restoreEntries = non_null_entries originalSettings in
         case
           (if length restoreEntries > 0 then
              (case issue drv log
                      (Query pl_set_config_sql
                             [JSON_stringify restoreEntries])
               of
                 (Inl e, log1) \<Rightarrow> (Some e, log1)
               | (Inr _, log1) \<Rightarrow> (None, log1))
            else (None, log))
         of
           (Some e, log1) \<Rightarrow> (Some e, log1)
         | (None, log1) \<Rightarrow> reset_nulls drv settings originalSettings log1)
      else (None, log))"

text \<open>
  \<open>createPGLiteAdapter(config).withPgClient\<close>. \<open>runExclusive\<close> only takes the driver's
  mutex and is left out. An error thrown by the \<open>finally\<close> block replaces the outcome
  of the \<open>try\<close> block.
\<close>

definition pglite_withPgClient ::
  "driver \<Rightarrow> pg_settings \<Rightarrow> (pglite_client \<Rightarrow> call_log \<Rightarrow> (js_error + 'a) \<times> call_log)
     \<Rightarrow> call_log \<Rightarrow> (js_error + 'a) \<times> call_log" where
  "pglite_withPgClient drv pgSettings callback log0 =
     (case pgSettings of
        None \<Rightarrow> run_callback callback \<lparr>pl_txLevel = 0, pl_alreadyInTransaction = False\<rparr> log0
      | Some kvs \<Rightarrow>
          if length kvs > 0 then
            (case capture_original drv kvs log0 of
               (Inl e, log1) \<Rightarrow> (Inl e, log1)
             | (Inr originalSettings, log1) \<Rightarrow>
                 (case
                    (let pgSettingsEntries = non_null_entries kvs in
                     case
                       (if length pgSettingsEntries > 0 then
                          issue drv log1
                            (Query pl_set_config_sql
                                   [JSON_stringify pgSettingsEntries])
                        else (Inr [], log1))
                     of
                       (Inl e, log2) \<Rightarrow> (Inl e, log2)
                     | (Inr _, log2) \<Rightarrow>
                         run_callback callback \<lparr>pl_txLevel = 0, pl_alreadyInTransaction = False\<rparr> log2)
                  of
                    (r, log3) \<Rightarrow>
                      (case restore_settings drv kvs originalSettings log3 of
                         (Some e, log4) \<Rightarrow> (Inl e, log4)
                       | (None, log4) \<Rightarrow> (r, log4))))
          else run_callback callback \<lparr>pl_txLevel = 0, pl_alreadyInTransaction = False\<rparr> log0)"

section \<open>The postgres.js adapter\<close>

text \<open>
  A postgres.js client wraps an \<open>Sql\<close> handle: the pool-level instance or the handle
  of a running \<open>sql.begin\<close>.
\<close>

record postgresjs_client =
  pj_in_begin :: bool
  pj_alwaysQueue :: bool

text \<open>\<open>createPostgresJsAdapter(config).withPgClient\<close>; the pool-wide queue is not modelled.\<close>

definition postgresjs_withPgClient ::
  "driver \<Rightarrow> bool \<Rightarrow> pg_settings \<Rightarrow> (postgresjs_client \<Rightarrow> call_log \<Rightarrow> (js_error + 'a) \<times> call_log)
     \<Rightarrow> call_log \<Rightarrow> (js_error + 'a) \<times> call_log" where
  "postgresjs_withPgClient drv config_alwaysQueue pgSettings callback log0 =
     (case pgSettings of
        None \<Rightarrow> run_callback callback \<lparr>pj_in_begin = False, pj_alwaysQueue = config_alwaysQueue\<rparr> log0
      | Some kvs \<Rightarrow>
          if length kvs > 0 then
            native_transaction drv
              (\<lambda>log1.
                 let pgSettingsEntries = non_null_entries kvs in
                 case
                   (if length pgSettingsEntries > 0 then
                      issue drv log1
                        (Query pj_set_config_sql
                               [JSON_stringify pgSettingsEntries])
                    else (Inr [], log1))
                 of
                   (Inl e, log2) \<Rightarrow> (Inl e, log2)
                 | (Inr _, log2) \<Rightarrow>
                     run_callback callback \<lparr>pj_in_begin = True, pj_alwaysQueue = config_alwaysQueue\<rparr> log2)
              log0
          else run_callback callback \<lparr>pj_in_begin = False, pj_alwaysQueue = config_alwaysQueue\<rparr> log0)"

section \<open>The LRU prepared-statement manager\<close>

text \<open>
  The values bound to a query. A \<open>Date\<close> carries its \<open>toISOString()\<close>, a plain object
  its \<open>JSON.stringify\<close> text, and any other value (a number, a bigint, \<open>undefined\<close>)
  its \<open>String(value)\<close>.
\<close>

datatype js_value =
    VNull
  | VString string
  | VBoolean bool
  | VDate string
  | VArray "js_value list"
  | VObject string
  | VOther string

text \<open>\<open>value.replace(/'/g, "''")\<close>\<close>

definition double_single_quotes :: "string \<Rightarrow> string" where
  "double_single_quotes s = concat (map (\<lambda>ch. if ch = CHR 0x27 then [CHR 0x27, CHR 0x27] else [ch]) s)"

fun formatValue :: "js_value \<Rightarrow> string" where
  "formatValue VNull = ''NULL''"
| "formatValue (VString s) = [CHR 0x27] @ double_single_quotes s @ [CHR 0x27]"
| "formatValue (VBoolean b) = (if b then ''TRUE'' else ''FALSE'')"
| "formatValue (VDate isoString) = [CHR 0x27] @ isoString @ [CHR 0x27]"
| "formatValue (VArray items) = ''ARRAY['' @ join '','' (map formatValue items) @ '']''"
| "formatValue (VObject json) = [CHR 0x27] @ double_single_quotes json @ [CHR 0x27] @ ''::jsonb''"
| "formatValue (VOther s) = s"

record PreparedStatement =
  ps_name :: string
  ps_text :: string
  ps_paramCount :: nat

text \<open>A JavaScript \<open>Map\<close> with string keys: the entries in insertion order.\<close>

type_synonym 'v js_map = "(string \<times> 'v) list"

definition map_has :: "string \<Rightarrow> 'v js_map \<Rightarrow> bool" where
  "map_has k m = (map_of m k \<noteq> None)"

definition map_set :: "string \<Rightarrow> 'v \<Rightarrow> 'v js_map \<Rightarrow> 'v js_map" where
  "map_set k v m =
     (if map_has k m then map (\<lambda>e. if fst e = k then (k, v) else e) m else m @ [(k, v)])"

definition map_delete :: "string \<Rightarrow> 'v js_map \<Rightarrow> 'v js_map" where
  "map_delete k m = filter (\<lambda>e. fst e \<noteq> k) m"

text \<open>
  Modelled from the spec: the class \<open>LRU\<close> of the package \<open>@graphile/lru\<close>, which the
  manager imports and which is not among the sources. The specification calls it a
  bounded map that is touched on use and from which the least recently used key falls
  out. Its entries are kept most recently used first. \<open>get\<close> returns the value of a
  present key and makes the key the most recent (the manager calls it in its hit
  branch for that effect alone, under the comment "Update LRU"); \<open>set\<close> of a new key
  makes it the most recent and drops the least recent entry when the bound is
  exceeded; \<open>set\<close> of a present key replaces its value.
\<close>

record lru_cache =
  lru_maxLength :: nat
  lru_entries :: "PreparedStatement js_map"

definition lru_get :: "string \<Rightarrow> lru_cache \<Rightarrow> PreparedStatement option \<times> lru_cache" where
  "lru_get k c =
     (case map_of (lru_entries c) k of
        None \<Rightarrow> (None, c)
      | Some v \<Rightarrow> (Some v, c\<lparr>lru_entries := (k, v) # map_delete k (lru_entries c)\<rparr>))"

definition lru_set :: "string \<Rightarrow> PreparedStatement \<Rightarrow> lru_cache \<Rightarrow> lru_cache" where
  "lru_set k v c =
     (if map_has k (lru_entries c)
      then c\<lparr>lru_entries := map (\<lambda>e. if fst e = k then (k, v) else e) (lru_entries c)\<rparr>
      else c\<lparr>lru_entries := take (lru_maxLength c) ((k, v) # lru_entries c)\<rparr>)"

record ConnectionState =
  cs_lru :: lru_cache
  cs_statements :: "PreparedStatement js_map"
  cs_counter :: nat

record QueryResult =
  qr_rows :: "row list"
  qr_count :: "nat option"
  qr_rowCount :: "nat option"
  qr_affectedRows :: "nat option"

text \<open>What \<open>executeQuery\<close> resolves to: the rows as objects, or as arrays in array mode.\<close>

datatype result_rows = ObjectRows "row list" | ArrayRows "string option list list"

record ExecuteResult =
  er_rows :: result_rows
  er_rowCount :: "nat option"

text \<open>A call of the \<open>executor\<close> function: the text, and the values when they are passed.\<close>

datatype executor_call = Call string "js_value list option"

type_synonym executor = "executor_call list \<Rightarrow> executor_call \<Rightarrow> js_error + QueryResult"

text \<open>The key under which a connection's state is filed: a string, or an object (by identity).\<close>

datatype client_key = StringKey string | ObjectKey nat

text \<open>
  The module-level state of \<open>lru-prepared-statements.ts\<close>. Connection states are
  objects that calls hold on to while the tables change, so they live in a store
  (\<open>heap\<close>, addressed by position) and the two tables hold addresses:
  \<open>stringKeyStates\<close> is the \<open>Map\<close>, in insertion order, and \<open>connectionStates\<close> the
  \<open>WeakMap\<close> (garbage collection is not modelled). \<open>executor_calls\<close> records the calls
  made on the executor, \<open>random_draws\<close> counts the calls of \<open>Math.random\<close>.
\<close>

record manager_world =
  heap :: "ConnectionState list"
  stringKeyStates :: "(string \<times> nat) list"
  connectionStates :: "(nat \<times> nat) list"
  executor_calls :: "executor_call list"
  random_draws :: nat

text \<open>
  The parameters of \<open>createLRUPreparedStatementManager\<close>, with the random
  \<open>managerId\<close> the manager draws when it is created.
\<close>

record manager =
  maxPreparedStatements :: nat
  statementPrefix :: string
  managerId :: string

text \<open>
  \<open>generateStatementKey\<close>. The MD5 digest comes from Node's \<open>crypto\<close> module and is a
  parameter: \<open>digest s\<close> is the hexadecimal digest of \<open>s\<close>.
\<close>

definition generateStatementKey :: "(string \<Rightarrow> string) \<Rightarrow> string \<Rightarrow> nat \<Rightarrow> string" where
  "generateStatementKey digest text paramCount =
     take 16 (digest (text @ '':'' @ string_of_nat paramCount))"

text \<open>
  \<open>storage.get(clientKey)\<close> and \<open>storage.delete(clientKey)\<close>, where \<open>storage\<close> is the
  \<open>Map\<close> for a string key and the \<open>WeakMap\<close> for an object.
\<close>

definition storage_get :: "client_key \<Rightarrow> manager_world \<Rightarrow> nat option" where
  "storage_get clientKey w =
     (case clientKey of
        StringKey s \<Rightarrow> map_of (stringKeyStates w) s
      | ObjectKey obj \<Rightarrow> map_of (connectionStates w) obj)"

definition storage_delete :: "client_key \<Rightarrow> manager_world \<Rightarrow> manager_world" where
  "storage_delete clientKey w =
     (case clientKey of
        StringKey s \<Rightarrow> w\<lparr>stringKeyStates := filter (\<lambda>e. fst e \<noteq> s) (stringKeyStates w)\<rparr>
      | ObjectKey obj \<Rightarrow> w\<lparr>connectionStates := filter (\<lambda>e. fst e \<noteq> obj) (connectionStates w)\<rparr>)"

text \<open>\<open>getConnectionState\<close>: the state filed under the key, created and filed when there is none.\<close>

definition getConnectionState :: "client_key \<Rightarrow> nat \<Rightarrow> manager_world \<Rightarrow> nat \<times> manager_world" where
  "getConnectionState clientKey maxPrepared w =
     (case storage_get clientKey w of
        Some a \<Rightarrow> (a, w)
      | None \<Rightarrow>
          (let a = length (heap w);
               state = \<lparr>cs_lru = \<lparr>lru_maxLength = maxPrepared, lru_entries = []\<rparr>,
                        cs_statements = [], cs_counter = 0\<rparr>
           in (a, case clientKey of
                    StringKey s \<Rightarrow>
                      w\<lparr>heap := heap w @ [state], stringKeyStates := stringKeyStates w @ [(s, a)]\<rparr>
                  | ObjectKey obj \<Rightarrow>
                      w\<lparr>heap := heap w @ [state], connectionStates := connectionStates w @ [(obj, a)]\<rparr>)))"

text \<open>\<open>cleanupStringStates\<close>: above 100 entries, the first key of the \<open>Map\<close> is deleted.\<close>

definition cleanupStringStates :: "manager_world \<Rightarrow> manager_world" where
  "cleanupStringStates w =
     (if length (stringKeyStates w) > 100 then
        (case stringKeyStates w of
           [] \<Rightarrow> w
         | (oldestKey, a) # rest \<Rightarrow> w\<lparr>stringKeyStates := filter (\<lambda>e. fst e \<noteq> oldestKey) (stringKeyStates w)\<rparr>)
      else w)"

text \<open>
  The \<open>finally\<close> block of \<open>executeQuery\<close>. \<open>Math.random\<close> is called only for a string
  key; \<open>rnd n\<close> says whether its \<open>n\<close>-th call returns a number below \<open>0.01\<close>.
\<close>

definition finally_block :: "(nat \<Rightarrow> bool) \<Rightarrow> client_key \<Rightarrow> manager_world \<Rightarrow> manager_world" where
  "finally_block rnd clientKey w =
     (case clientKey of
        ObjectKey _ \<Rightarrow> w
      | StringKey _ \<Rightarrow>
          (if rnd (random_draws w) then cleanupStringStates (w\<lparr>random_draws := random_draws w + 1\<rparr>)
           else w\<lparr>random_draws := random_draws w + 1\<rparr>))"

definition call_executor ::
  "executor \<Rightarrow> executor_call \<Rightarrow> manager_world \<Rightarrow> (js_error + QueryResult) \<times> manager_world" where
  "call_executor exec call w =
     (exec (executor_calls w) call, w\<lparr>executor_calls := executor_calls w @ [call]\<rparr>)"

text \<open>
  The object \<open>executeQuery\<close> returns for a result of the executor:
  \<open>count ?? rowCount ?? affectedRows ?? null\<close>, and \<open>Object.values\<close> of each row in
  array mode.
\<close>

definition map_result :: "bool \<Rightarrow> QueryResult \<Rightarrow> ExecuteResult" where
  "map_result arrayMode result =
     \<lparr>er_rows = (if arrayMode then ArrayRows (map (map snd) (qr_rows result))
                  else ObjectRows (qr_rows result)),
      er_rowCount = (case qr_count result of
                       Some n \<Rightarrow> Some n
                     | None \<Rightarrow> (case qr_rowCount result of
                                   Some n \<Rightarrow> Some n
                                 | None \<Rightarrow> qr_affectedRows result))\<rparr>"

text \<open>Direct execution, \<open>executor(queryText, values)\<close>: the short circuit and the fallback.\<close>

definition direct_execution ::
  "executor \<Rightarrow> string \<Rightarrow> js_value list \<Rightarrow> bool \<Rightarrow> manager_world
     \<Rightarrow> (js_error + ExecuteResult) \<times> manager_world" where
  "direct_execution exec queryText vals arrayMode w =
     (case call_executor exec (Call queryText (Some vals)) w of
        (Inl err, w1) \<Rightarrow> (Inl err, w1)
      | (Inr result, w1) \<Rightarrow> (Inr (map_result arrayMode result), w1))"

text \<open>
  The search of the eviction loop: the statements in \<open>Map\<close> order, each looked up with
  \<open>state.lru.get\<close> until one is absent from the LRU. Every key found on the way has
  been read with \<open>get\<close>.
\<close>

fun find_evictable ::
  "PreparedStatement js_map \<Rightarrow> lru_cache \<Rightarrow> (string \<times> PreparedStatement) option \<times> lru_cache" where
  "find_evictable [] c = (None, c)"
| "find_evictable ((k, v) # rest) c =
     (case lru_get k c of
        (None, c1) \<Rightarrow> (Some (k, v), c1)
      | (Some _, c1) \<Rightarrow> find_evictable rest c1)"

definition set_state :: "nat \<Rightarrow> ConnectionState \<Rightarrow> manager_world \<Rightarrow> manager_world" where
  "set_state a state w = w\<lparr>heap := (heap w)[a := state]\<rparr>"

text \<open>
  The eviction block that follows an insertion, on the state as it stands after the
  insertion: above the cap, the first statement absent from the LRU is deallocated
  (a failing \<open>DEALLOCATE\<close> is only logged) and deleted, and the loop ends.
\<close>

definition evict_overflow ::
  "manager \<Rightarrow> executor \<Rightarrow> nat \<Rightarrow> ConnectionState \<Rightarrow> manager_world \<Rightarrow> manager_world" where
  "evict_overflow mgr exec a state w =
     (if length (cs_statements state) > maxPreparedStatements mgr then
        (case find_evictable (cs_statements state) (cs_lru state) of
           (None, c) \<Rightarrow> set_state a (state\<lparr>cs_lru := c\<rparr>) w
         | (Some kv, c) \<Rightarrow>
             set_state a
               (state\<lparr>cs_lru := c, cs_statements := map_delete (fst kv) (cs_statements state)\<rparr>)
               (snd (call_executor exec (Call (''DEALLOCATE '' @ ps_name (snd kv)) None) w)))
      else set_state a state w)"

text \<open>
  The first half of the body of \<open>executeQuery\<close>, on the state at address \<open>a\<close>: the
  lookup of the statement, and on a miss the \<open>PREPARE\<close>, the insertion and the
  eviction. \<open>None\<close> is the \<open>catch\<close> of a failed \<open>PREPARE\<close> (the counter has advanced,
  nothing is stored).
\<close>

definition ensure_prepared ::
  "manager \<Rightarrow> executor \<Rightarrow> nat \<Rightarrow> string \<Rightarrow> string \<Rightarrow> js_value list \<Rightarrow> manager_world
     \<Rightarrow> PreparedStatement option \<times> manager_world" where
  "ensure_prepared mgr exec a key queryText vals w =
     (let state = heap w ! a in
      case map_of (cs_statements state) key of
        Some stmt \<Rightarrow>
          (Some stmt, set_state a (state\<lparr>cs_lru := snd (lru_get key (cs_lru state))\<rparr>) w)
      | None \<Rightarrow>
          (let stmtName = statementPrefix mgr @ ''_'' @ managerId mgr @ ''_'' @
                            string_of_nat (cs_counter state);
               state1 = state\<lparr>cs_counter := cs_counter state + 1\<rparr>
           in case call_executor exec (Call (''PREPARE '' @ stmtName @ '' AS '' @ queryText) None)
                     (set_state a state1 w) of
                (Inl err, w1) \<Rightarrow> (None, w1)
              | (Inr _, w1) \<Rightarrow>
                  (let stmt = \<lparr>ps_name = stmtName, ps_text = queryText, ps_paramCount = length vals\<rparr>
                   in (Some stmt,
                       evict_overflow mgr exec a
                         (state1\<lparr>cs_statements := map_set key stmt (cs_statements state1),
                                 cs_lru := lru_set key stmt (cs_lru state1)\<rparr>) w1))))"

text \<open>\<open>String.prototype.includes\<close>\<close>

fun str_includes :: "string \<Rightarrow> string \<Rightarrow> bool" where
  "str_includes [] sub = (sub = [])"
| "str_includes (ch # rest) sub = (take (length sub) (ch # rest) = sub \<or> str_includes rest sub)"

text \<open>\<open>err.message?.includes("does not exist")\<close>: a value without a message is not a loss.\<close>

definition statement_is_missing :: "js_error \<Rightarrow> bool" where
  "statement_is_missing err =
     (case err of Error message \<Rightarrow> str_includes message ''does not exist'' | Thrown _ \<Rightarrow> False)"

definition execute_text :: "PreparedStatement \<Rightarrow> js_value list \<Rightarrow> string" where
  "execute_text stmt vals =
     (if length vals > 0
      then ''EXECUTE '' @ ps_name stmt @ ''('' @ join '', '' (map formatValue vals) @ '')''
      else ''EXECUTE '' @ ps_name stmt)"

text \<open>
  The body of \<open>executeQuery\<close> from the lookup on, for a named query with values, on
  the state at address \<open>a\<close>. When the \<open>EXECUTE\<close> fails with a message that contains
  "does not exist", the entry is deleted and \<open>executeQuery\<close> calls itself. That call is
  returned without \<open>await\<close>, so the \<open>finally\<close> block of the caller runs as soon as the
  inner call has reached its first \<open>await\<close>: after the inner call has passed the same
  short circuit and fetched the connection state again, and before it goes on. What
  the inner call does up to that \<open>await\<close> beyond fetching the state (it reads the state
  and calls the executor) touches nothing the \<open>finally\<close> block reads or writes. \<open>fuel\<close>
  bounds the number of attempts: the server may report the statement missing every
  time, and then the call never returns (\<open>None\<close>).
\<close>

fun execute_with_state ::
  "nat \<Rightarrow> manager \<Rightarrow> executor \<Rightarrow> (nat \<Rightarrow> bool) \<Rightarrow> client_key \<Rightarrow> string \<Rightarrow> js_value list
     \<Rightarrow> bool \<Rightarrow> nat \<Rightarrow> string \<Rightarrow> manager_world
     \<Rightarrow> ((js_error + ExecuteResult) \<times> manager_world) option" where
  "execute_with_state 0 mgr exec rnd clientKey queryText vals arrayMode a key w = None"
| "execute_with_state (Suc fuel) mgr exec rnd clientKey queryText vals arrayMode a key w =
     (case ensure_prepared mgr exec a key queryText vals w of
        (None, w1) \<Rightarrow> Some (direct_execution exec queryText vals arrayMode w1)
      | (Some stmt, w1) \<Rightarrow>
          (case call_executor exec (Call (execute_text stmt vals) None) w1 of
             (Inr result, w2) \<Rightarrow>
               Some (Inr (map_result arrayMode result), finally_block rnd clientKey w2)
           | (Inl err, w2) \<Rightarrow>
               if statement_is_missing err then
                 (let state = heap w2 ! a;
                      w3 = set_state a (state\<lparr>cs_statements := map_delete key (cs_statements state)\<rparr>) w2
                  in case getConnectionState clientKey (maxPreparedStatements mgr) w3 of
                       (a', w4) \<Rightarrow>
                         execute_with_state fuel mgr exec rnd clientKey queryText vals arrayMode
                           a' key (finally_block rnd clientKey w4))
               else Some (Inl err, finally_block rnd clientKey w2)))"

text \<open>\<open>executeQuery\<close>. A missing or empty name, or no values, goes straight to the executor.\<close>

definition executeQuery ::
  "nat \<Rightarrow> manager \<Rightarrow> (string \<Rightarrow> string) \<Rightarrow> executor \<Rightarrow> (nat \<Rightarrow> bool) \<Rightarrow> client_key
     \<Rightarrow> string option \<Rightarrow> string \<Rightarrow> js_value list \<Rightarrow> bool \<Rightarrow> manager_world
     \<Rightarrow> ((js_error + ExecuteResult) \<times> manager_world) option" where
  "executeQuery fuel mgr digest exec rnd clientKey queryName queryText vals arrayMode w =
     (if queryName = None \<or> queryName = Some [] \<or> length vals = 0 then
        Some (direct_execution exec queryText vals arrayMode w)
      else
        (case getConnectionState clientKey (maxPreparedStatements mgr) w of
           (a, w0) \<Rightarrow>
             execute_with_state fuel mgr exec rnd clientKey queryText vals arrayMode a
               (generateStatementKey digest queryText (length vals)) w0))"

text \<open>
  \<open>cleanupConnection\<close>: a \<open>DEALLOCATE\<close> for every statement of the state (failures are
  logged), then the key is deleted from its table.
\<close>

fun deallocate_all :: "executor \<Rightarrow> PreparedStatement list \<Rightarrow> manager_world \<Rightarrow> manager_world" where
  "deallocate_all exec [] w = w"
| "deallocate_all exec (stmt # rest) w =
     deallocate_all exec rest (snd (call_executor exec (Call (''DEALLOCATE '' @ ps_name stmt) None) w))"

definition cleanupConnection :: "executor \<Rightarrow> client_key \<Rightarrow> manager_world \<Rightarrow> manager_world" where
  "cleanupConnection exec clientKey w =
     (case storage_get clientKey w of
        None \<Rightarrow> w
      | Some a \<Rightarrow>
          storage_delete clientKey
            (deallocate_all exec (map snd (cs_statements (heap w ! a))) w))"

text \<open>A sequence of \<open>executeQuery\<close> calls, each awaited before the next; the results are dropped.\<close>

fun run_queries ::
  "nat \<Rightarrow> manager \<Rightarrow> (string \<Rightarrow> string) \<Rightarrow> executor \<Rightarrow> (nat \<Rightarrow> bool)
     \<Rightarrow> (client_key \<times> string option \<times> string \<times> js_value list) list \<Rightarrow> manager_world
     \<Rightarrow> manager_world option" where
  "run_queries fuel mgr digest exec rnd [] w = Some w"
| "run_queries fuel mgr digest exec rnd ((clientKey, queryName, queryText, vals) # rest) w =
     (case executeQuery fuel mgr digest exec rnd clientKey queryName queryText vals False w of
        None \<Rightarrow> None
      | Some (_, w1) \<Rightarrow> run_queries fuel mgr digest exec rnd rest w1)"

definition empty_world :: manager_world where
  "empty_world = \<lparr>heap = [], stringKeyStates = [], connectionStates = [], executor_calls = [],
                  random_draws = 0\<rparr>"

definition empty_result :: QueryResult where
  "empty_result = \<lparr>qr_rows = [], qr_count = None, qr_rowCount = None, qr_affectedRows = None\<rparr>"

text \<open>An executor that accepts every call, and one that rejects the call number \<open>n\<close> only.\<close>

definition accepting_executor :: executor where
  "accepting_executor calls call = Inr empty_result"

definition failing_at :: "nat \<Rightarrow> js_error \<Rightarrow> executor" where
  "failing_at n err calls call = (if length calls = n then Inl err else Inr empty_result)"

text \<open>
  The MD5 digests, in hexadecimal, of the four strings hashed when the queries
  \<open>select a($1)\<close>, ..., \<open>select d($1)\<close> are run with one value each.
\<close>

definition md5_of_examples :: "string \<Rightarrow> string" where
  "md5_of_examples s =
     (if s = ''select a($1):1'' then ''35a33c227ca0196dfe10f3c9406081f3''
      else if s = ''select b($1):1'' then ''1f5b37c9297f4f3d9c7a4dc38b6f0054''
      else if s = ''select c($1):1'' then ''570d06f84f04a00f5b88ee6f2d4ceb7e''
      else if s = ''select d($1):1'' then ''3fb71aa9aeab16805df61061daf7c05a''
      else [])"

definition example_manager :: manager where
  "example_manager = \<lparr>maxPreparedStatements = 2, statementPrefix = ''lru'', managerId = ''k3x9qz''\<rparr>"

definition never :: "nat \<Rightarrow> bool" where
  "never n = False"

text \<open>The keys of the statements map of the state at an address, in \<open>Map\<close> order.\<close>

definition statement_keys :: "nat \<Rightarrow> manager_world \<Rightarrow> string list" where
  "statement_keys a w = map fst (cs_statements (heap w ! a))"

text \<open>The number of string-keyed connection states.\<close>

definition string_table_size :: "manager_world \<Rightarrow> nat" where
  "string_table_size w = length (stringKeyStates w)"

text \<open>
  The module state after \<open>select a($1)\<close> has been run once, as \<open>q1\<close>, for the
  connection object \<open>0\<close>: the statement is prepared and cached.
\<close>

definition world_with_q1 :: manager_world where
  "world_with_q1 =
     \<lparr>heap =
        [\<lparr>cs_lru = \<lparr>lru_maxLength = 2,
                     lru_entries = [(''35a33c227ca0196d'',
                       \<lparr>ps_name = ''lru_k3x9qz_0'', ps_text = ''select a($1)'', ps_paramCount = 1\<rparr>)]\<rparr>,
          cs_statements = [(''35a33c227ca0196d'',
                       \<lparr>ps_name = ''lru_k3x9qz_0'', ps_text = ''select a($1)'', ps_paramCount = 1\<rparr>)],
          cs_counter = 1\<rparr>],
      stringKeyStates = [], connectionStates = [(0, 0)],
      executor_calls = [Call ''PREPARE lru_k3x9qz_0 AS select a($1)'' None,
                        Call ''EXECUTE lru_k3x9qz_0(1)'' None],
      random_draws = 0\<rparr>"

text \<open>
  The same named query run once for each of \<open>n\<close> connections with distinct string
  keys (the key number \<open>i\<close> is \<open>i\<close> times the letter c).
\<close>

definition string_key_queries ::
  "nat \<Rightarrow> (client_key \<times> string option \<times> string \<times> js_value list) list" where
  "string_key_queries n =
     map (\<lambda>i. (StringKey (replicate i CHR ''c''), Some ''q1'', ''select a($1)'', [VOther ''1'']))
       [0..<n]"

text \<open>A module state with \<open>n\<close> string-keyed connection states, all fresh.\<close>

definition world_with_string_keys :: "nat \<Rightarrow> manager_world" where
  "world_with_string_keys n =
     \<lparr>heap = replicate n \<lparr>cs_lru = \<lparr>lru_maxLength = 2, lru_entries = []\<rparr>,
                           cs_statements = [], cs_counter = 0\<rparr>,
      stringKeyStates = map (\<lambda>i. (replicate i CHR ''c'', i)) [0..<n],
      connectionStates = [], executor_calls = [], random_draws = 0\<rparr>"

text \<open>
  The error of a server that has lost the statement \<open>lru_k3x9qz_0\<close>, and the module
  state in which \<open>executeQuery\<close> retries after that error on \<open>world_with_q1\<close>: the
  failed \<open>EXECUTE\<close> is recorded and the cached entry is gone.
\<close>

definition statement_lost :: js_error where
  "statement_lost = Error ''prepared statement lru_k3x9qz_0 does not exist''"

definition world_retrying :: manager_world where
  "world_retrying =
     finally_block never (ObjectKey 0)
       (set_state 0
          ((heap world_with_q1 ! 0)\<lparr>cs_statements :=
             map_delete ''35a33c227ca0196d'' (cs_statements (heap world_with_q1 ! 0))\<rparr>)
          (world_with_q1\<lparr>executor_calls :=
             executor_calls world_with_q1 @ [Call ''EXECUTE lru_k3x9qz_0(1)'' None]\<rparr>))"

section \<open>Releasing a pool\<close>

text \<open>
  \<open>createPgPoolFromPool(pool, release)\<close>: the flag \<open>released\<close>, and how often the
  \<open>release\<close> callback has been called. \<open>releaseOnce\<close> takes what that callback does
  when it is called: it returns (\<open>None\<close>) or throws.
\<close>

record PgPoolFromPool =
  released :: bool
  release_calls :: nat

definition releaseOnce :: "js_error option \<Rightarrow> PgPoolFromPool \<Rightarrow> (js_error + unit) \<times> PgPoolFromPool" where
  "releaseOnce release_throws p =
     (if released p then (Inl (Error ''Release called twice on the same PgPool''), p)
      else
        (case release_throws of
           None \<Rightarrow> (Inr (), p\<lparr>released := True, release_calls := release_calls p + 1\<rparr>)
         | Some e \<Rightarrow> (Inl e, p\<lparr>released := True, release_calls := release_calls p + 1\<rparr>)))"

text \<open>
  The adapters made by \<open>createNodePostgresAdapter\<close>, \<open>createPostgresJsAdapter\<close> and
  \<open>createPGLiteAdapter\<close> hold their driver in a variable that is \<open>null\<close> until the first
  use (\<open>driver_present\<close>), and know whether the configuration supplied the driver
  (\<open>driver_supplied\<close>). \<open>driver_ended\<close> counts the calls of \<open>pool.end()\<close>, \<open>sql.end()\<close>
  or \<open>pglite.close()\<close>. For postgres.js the driver is the client key of the statement
  manager (the object \<open>driver_object\<close>); for PGlite the key is the string
  \<open>pglite-static\<close>.
\<close>

record adapter =
  driver_present :: bool
  driver_supplied :: bool
  driver_ended :: nat
  driver_object :: nat

text \<open>
  \<open>createNodePostgresAdapter(config).release\<close>; \<open>end_rejects\<close> is what \<open>pool.end()\<close>
  does when it is called.
\<close>

definition node_postgres_release :: "js_error option \<Rightarrow> adapter \<Rightarrow> (js_error + unit) \<times> adapter" where
  "node_postgres_release end_rejects ad =
     (if driver_present ad \<and> \<not> driver_supplied ad then
        (case end_rejects of
           Some e \<Rightarrow> (Inl e, ad\<lparr>driver_ended := driver_ended ad + 1\<rparr>)
         | None \<Rightarrow> (Inr (), ad\<lparr>driver_ended := driver_ended ad + 1, driver_present := False\<rparr>))
      else (Inr (), ad))"

text \<open>
  \<open>createPostgresJsAdapter(config).release\<close>, on the adapter and the module state of
  the statement manager (the wait for the pool-wide queue is not modelled).
\<close>

definition postgresjs_release ::
  "executor \<Rightarrow> js_error option \<Rightarrow> adapter \<times> manager_world
     \<Rightarrow> (js_error + unit) \<times> adapter \<times> manager_world" where
  "postgresjs_release exec end_rejects st =
     (case st of
        (ad, w) \<Rightarrow>
          (let w1 = (if driver_present ad then cleanupConnection exec (ObjectKey (driver_object ad)) w
                     else w)
           in if driver_present ad \<and> \<not> driver_supplied ad then
                (case end_rejects of
                   Some e \<Rightarrow> (Inl e, ad\<lparr>driver_ended := driver_ended ad + 1\<rparr>, w1)
                 | None \<Rightarrow>
                     (Inr (), ad\<lparr>driver_ended := driver_ended ad + 1, driver_present := False\<rparr>, w1))
              else (Inr (), ad, w1)))"

text \<open>\<open>createPGLiteAdapter(config).release\<close>.\<close>

definition pglite_release ::
  "executor \<Rightarrow> js_error option \<Rightarrow> adapter \<times> manager_world
     \<Rightarrow> (js_error + unit) \<times> adapter \<times> manager_world" where
  "pglite_release exec close_rejects st =
     (case st of
        (ad, w) \<Rightarrow>
          if driver_present ad then
            (let w1 = cleanupConnection exec (StringKey ''pglite-static'') w
             in if \<not> driver_supplied ad then
                  (case close_rejects of
                     Some e \<Rightarrow> (Inl e, ad\<lparr>driver_ended := driver_ended ad + 1\<rparr>, w1)
                   | None \<Rightarrow>
                       (Inr (), ad\<lparr>driver_ended := driver_ended ad + 1, driver_present := False\<rparr>, w1))
                else (Inr (), ad, w1))
          else (Inr (), ad, w))"

section \<open>The LISTEN/NOTIFY subscriber\<close>

text \<open>
  A consumer stream made by \<open>subscribe\<close>: its topic, the payloads not yet read
  (\<open>stack\<close>), the parked calls of \<open>next\<close> (\<open>queue\<close>, each waiter by a number) and
  whether it is finished.
\<close>

record consumer =
  c_topic :: string
  c_stack :: "string option list"
  c_queue :: "nat list"
  c_finished :: bool

text \<open>
  What the subscriber does to the outside: calls of \<open>pgPool.listen\<close>, calls of an
  unlisten handle (handles are numbered in the order \<open>pgPool.listen\<close> is called),
  calls of a stream's \<open>return\<close> and \<open>throw\<close>, and the settling of a call of \<open>next\<close>
  with a payload or with \<open>done\<close>.
\<close>

datatype sub_effect =
    ListenCall string
  | UnlistenCall nat
  | ReturnCall nat
  | ThrowCall nat
  | WaiterValue nat "string option"
  | WaiterDone nat

text \<open>
  The pool behind the subscriber: whether a request made after the effects so far is
  fulfilled (\<open>True\<close>) or rejected.
\<close>

datatype pool_request = ListenRequest string | UnlistenRequest nat

type_synonym listen_pool = "sub_effect list \<Rightarrow> pool_request \<Rightarrow> bool"

text \<open>
  The methods \<open>listen\<close>, \<open>unlisten\<close> and \<open>release\<close> are \<open>async\<close>: each runs up to its
  \<open>await\<close> when it is called, and the rest runs later, when the awaited promise has
  settled. A continuation is that rest: of \<open>listen\<close> (with the handle, or none when
  the pool rejected), of \<open>unlisten\<close> (with whether the handle's promise was fulfilled),
  and of the second loop of \<open>release\<close> (with the position it has reached in the
  \<open>Map\<close> of unlisteners).
\<close>

datatype continuation =
    ListenSettled string "nat option"
  | UnlistenSettled string bool
  | ReleaseResume nat

text \<open>
  The fields of \<open>PgSubscriber\<close>. \<open>topics\<close> holds, per topic, the streams by their
  index in \<open>consumers\<close>; \<open>emitter\<close> the listeners of the event emitter; an entry of
  \<open>unlisteners\<close> is the handle together with the rank of its insertion in the \<open>Map\<close>
  (a \<open>Map\<close> is walked in insertion order, also while it changes). \<open>pending\<close> are the
  continuations waiting to run, oldest first.
\<close>

record PgSubscriber =
  topics :: "nat list js_map"
  emitter :: "nat list js_map"
  alive :: bool
  unlisteners :: "(nat \<times> nat) js_map"
  consumers :: "consumer list"
  pending :: "continuation list"
  effects :: "sub_effect list"
  next_handle :: nat
  next_rank :: nat
  next_waiter :: nat

definition new_PgSubscriber :: PgSubscriber where
  "new_PgSubscriber =
     \<lparr>topics = [], emitter = [], alive = True, unlisteners = [], consumers = [], pending = [],
      effects = [], next_handle = 0, next_rank = 0, next_waiter = 0\<rparr>"

text \<open>
  \<open>listen(topic)\<close> up to its \<open>await\<close>: \<open>pgPool.listen\<close> is called; storing the handle
  is left to the continuation.
\<close>

definition listen :: "listen_pool \<Rightarrow> string \<Rightarrow> PgSubscriber \<Rightarrow> PgSubscriber" where
  "listen pool topic s =
     s\<lparr>effects := effects s @ [ListenCall topic],
       next_handle := next_handle s + 1,
       pending := pending s @
         [ListenSettled topic
            (if pool (effects s) (ListenRequest topic) then Some (next_handle s) else None)]\<rparr>"

text \<open>
  \<open>unlisten(topic)\<close> up to its \<open>await\<close>: the stored handle, if there is one, is
  called; deleting it from the \<open>Map\<close> is left to the continuation.
\<close>

definition unlisten :: "listen_pool \<Rightarrow> string \<Rightarrow> PgSubscriber \<Rightarrow> PgSubscriber" where
  "unlisten pool topic s =
     (case map_of (unlisteners s) topic of
        None \<Rightarrow> s
      | Some (rank, h) \<Rightarrow>
          s\<lparr>effects := effects s @ [UnlistenCall h],
            pending := pending s @ [UnlistenSettled topic (pool (effects s) (UnlistenRequest h))]\<rparr>)"

text \<open>\<open>doFinally\<close> of the stream number \<open>i\<close>.\<close>

definition doFinally :: "listen_pool \<Rightarrow> nat \<Rightarrow> PgSubscriber \<Rightarrow> PgSubscriber" where
  "doFinally pool i s =
     (let c = consumers s ! i in
      if c_finished c then s
      else
        (let s1 = s\<lparr>consumers := (consumers s)[i := c\<lparr>c_finished := True, c_queue := []\<rparr>],
                    effects := effects s @ map WaiterDone (c_queue c),
                    emitter := (case map_of (emitter s) (c_topic c) of
                                  None \<Rightarrow> emitter s
                                | Some ls \<Rightarrow> map_set (c_topic c) (removeAll i ls) (emitter s))\<rparr>
         in case map_of (topics s1) (c_topic c) of
              None \<Rightarrow> s1
            | Some its \<Rightarrow>
                if i \<in> set its then
                  (if remove1 i its = []
                   then unlisten pool (c_topic c) (s1\<lparr>topics := map_delete (c_topic c) (topics s1)\<rparr>)
                   else s1\<lparr>topics := map_set (c_topic c) (remove1 i its) (topics s1)\<rparr>)
                else s1))"

text \<open>The methods \<open>return\<close> and \<open>throw\<close> of a stream.\<close>

definition iterator_return :: "listen_pool \<Rightarrow> nat \<Rightarrow> PgSubscriber \<Rightarrow> PgSubscriber" where
  "iterator_return pool i s = doFinally pool i (s\<lparr>effects := effects s @ [ReturnCall i]\<rparr>)"

definition iterator_throw :: "listen_pool \<Rightarrow> nat \<Rightarrow> PgSubscriber \<Rightarrow> PgSubscriber" where
  "iterator_throw pool i s = doFinally pool i (s\<lparr>effects := effects s @ [ThrowCall i]\<rparr>)"

text \<open>The method \<open>next\<close> of a stream; the call is the waiter number \<open>next_waiter\<close>.\<close>

definition iterator_next :: "nat \<Rightarrow> PgSubscriber \<Rightarrow> PgSubscriber" where
  "iterator_next i s =
     (let c = consumers s ! i; w = next_waiter s; s1 = s\<lparr>next_waiter := w + 1\<rparr> in
      case c_stack c of
        v # rest \<Rightarrow> s1\<lparr>consumers := (consumers s)[i := c\<lparr>c_stack := rest\<rparr>],
                      effects := effects s @ [WaiterValue w v]\<rparr>
      | [] \<Rightarrow>
          if c_finished c then s1\<lparr>effects := effects s @ [WaiterDone w]\<rparr>
          else s1\<lparr>consumers := (consumers s)[i := c\<lparr>c_queue := c_queue c @ [w]\<rparr>]\<rparr>)"

text \<open>\<open>recv\<close> of a stream, and the emitter handing a payload to every listener of a topic.\<close>

definition recv :: "string option \<Rightarrow> nat \<Rightarrow> PgSubscriber \<Rightarrow> PgSubscriber" where
  "recv payload i s =
     (let c = consumers s ! i in
      case c_queue c of
        w # rest \<Rightarrow> s\<lparr>consumers := (consumers s)[i := c\<lparr>c_queue := rest\<rparr>],
                     effects := effects s @ [WaiterValue w payload]\<rparr>
      | [] \<Rightarrow> s\<lparr>consumers := (consumers s)[i := c\<lparr>c_stack := c_stack c @ [payload]\<rparr>]\<rparr>)"

definition emit :: "string \<Rightarrow> string option \<Rightarrow> PgSubscriber \<Rightarrow> PgSubscriber" where
  "emit topic payload s =
     (case map_of (emitter s) topic of
        None \<Rightarrow> s
      | Some ls \<Rightarrow> fold (recv payload) ls s)"

text \<open>\<open>subscribe(topic)\<close>; the new stream is the result.\<close>

definition subscribe :: "listen_pool \<Rightarrow> string \<Rightarrow> PgSubscriber \<Rightarrow> (js_error + nat) \<times> PgSubscriber" where
  "subscribe pool topic s =
     (if \<not> alive s then (Inl (Error ''This PgSubscriber has been released.''), s)
      else
        (let i = length (consumers s);
             s1 = s\<lparr>consumers := consumers s @
                         [\<lparr>c_topic = topic, c_stack = [], c_queue = [], c_finished = False\<rparr>],
                    emitter := (case map_of (emitter s) topic of
                                  None \<Rightarrow> map_set topic [i] (emitter s)
                                | Some ls \<Rightarrow> map_set topic (ls @ [i]) (emitter s))\<rparr>
         in case map_of (topics s1) topic of
              None \<Rightarrow> (Inr i, listen pool topic (s1\<lparr>topics := map_set topic [i] (topics s1)\<rparr>))
            | Some its \<Rightarrow> (Inr i, s1\<lparr>topics := map_set topic (its @ [i]) (topics s1)\<rparr>)))"

text \<open>
  The inner loop of \<open>release\<close>, \<open>for (const it of this.topics[topic]) it.return()\<close>: the
  array is walked by index while \<open>doFinally\<close> splices the returned stream out of it,
  so the index moves on over an array that has moved up. \<open>n\<close> bounds the steps
  (the length of the array at the start is enough).
\<close>

fun return_loop :: "nat \<Rightarrow> nat \<Rightarrow> listen_pool \<Rightarrow> string \<Rightarrow> PgSubscriber \<Rightarrow> PgSubscriber" where
  "return_loop 0 idx pool topic s = s"
| "return_loop (Suc n) idx pool topic s =
     (case map_of (topics s) topic of
        None \<Rightarrow> s
      | Some its \<Rightarrow>
          if idx < length its
          then return_loop n (idx + 1) pool topic (iterator_return pool (its ! idx) s)
          else s)"

text \<open>
  The second loop of \<open>release\<close>, from the entries of rank at least \<open>from\<close>: the next handle
  is called and the loop waits for it (a rejection is logged); when no entry is left
  the \<open>Map\<close> is cleared.
\<close>

definition release_unlisteners :: "listen_pool \<Rightarrow> nat \<Rightarrow> PgSubscriber \<Rightarrow> PgSubscriber" where
  "release_unlisteners pool from s =
     (case filter (\<lambda>e. from \<le> fst (snd e)) (unlisteners s) of
        [] \<Rightarrow> s\<lparr>unlisteners := []\<rparr>
      | (topic, rank, h) # _ \<Rightarrow>
          s\<lparr>effects := effects s @ [UnlistenCall h],
            pending := pending s @ [ReleaseResume (rank + 1)]\<rparr>)"

text \<open>\<open>release()\<close> up to its first \<open>await\<close>.\<close>

definition release :: "listen_pool \<Rightarrow> PgSubscriber \<Rightarrow> PgSubscriber" where
  "release pool s =
     (if alive s then
        release_unlisteners pool 0
          (fold (\<lambda>topic st.
                   (let st1 = return_loop
                                (case map_of (topics st) topic of None \<Rightarrow> 0 | Some its \<Rightarrow> length its)
                                0 pool topic st
                    in st1\<lparr>topics := map_delete topic (topics st1)\<rparr>))
                (map fst (topics s)) (s\<lparr>alive := False\<rparr>))
      else s)"

text \<open>A continuation runs.\<close>

definition run_continuation :: "listen_pool \<Rightarrow> continuation \<Rightarrow> PgSubscriber \<Rightarrow> PgSubscriber" where
  "run_continuation pool k s =
     (case k of
        ListenSettled topic None \<Rightarrow> s
      | ListenSettled topic (Some h) \<Rightarrow>
          (case map_of (unlisteners s) topic of
             Some (rank, _) \<Rightarrow> s\<lparr>unlisteners := map_set topic (rank, h) (unlisteners s)\<rparr>
           | None \<Rightarrow> s\<lparr>unlisteners := map_set topic (next_rank s, h) (unlisteners s),
                       next_rank := next_rank s + 1\<rparr>)
      | UnlistenSettled topic ok \<Rightarrow>
          (if ok then s\<lparr>unlisteners := map_delete topic (unlisteners s)\<rparr> else s)
      | ReleaseResume from \<Rightarrow> release_unlisteners pool from s)"

text \<open>
  The promises settle in the order they were made: all continuations that are waiting
  run, oldest first; those they leave behind wait for the next turn.
\<close>

definition settle :: "listen_pool \<Rightarrow> PgSubscriber \<Rightarrow> PgSubscriber" where
  "settle pool s = fold (run_continuation pool) (pending s) (s\<lparr>pending := []\<rparr>)"

text \<open>What a user of the subscriber, the pool and the event loop can do, one after the other.\<close>

datatype sub_op =
    Subscribe string
  | Next nat
  | Return nat
  | Throw nat
  | Notify string "string option"
  | Release
  | Settle

definition sub_step :: "listen_pool \<Rightarrow> sub_op \<Rightarrow> PgSubscriber \<Rightarrow> PgSubscriber" where
  "sub_step pool op s =
     (case op of
        Subscribe topic \<Rightarrow> snd (subscribe pool topic s)
      | Next i \<Rightarrow> if i < length (consumers s) then iterator_next i s else s
      | Return i \<Rightarrow> if i < length (consumers s) then iterator_return pool i s else s
      | Throw i \<Rightarrow> if i < length (consumers s) then iterator_throw pool i s else s
      | Notify topic payload \<Rightarrow> emit topic payload s
      | Release \<Rightarrow> release pool s
      | Settle \<Rightarrow> settle pool s)"

definition sub_run :: "listen_pool \<Rightarrow> sub_op list \<Rightarrow> PgSubscriber \<Rightarrow> PgSubscriber" where
  "sub_run pool ops s = fold (sub_step pool) ops s"

text \<open>A pool that fulfils every request.\<close>

definition fulfilling_pool :: listen_pool where
  "fulfilling_pool done request = True"

section \<open>Drivers and callbacks used as concrete inputs\<close>

text \<open>A driver that accepts every call and returns no rows.\<close>

definition accepting_driver :: driver where
  "accepting_driver log call = Inr []"

text \<open>A driver that rejects every \<open>Query\<close> of one statement text and accepts the rest.\<close>

definition rejecting :: "string \<Rightarrow> js_error \<Rightarrow> driver" where
  "rejecting t e log call =
     (case call of Query text vs \<Rightarrow> if text = t then Inl e else Inr [] | _ \<Rightarrow> Inr [])"

text \<open>A callback that returns a value, and one that throws, without any call of their own.\<close>

definition returning :: "'a \<Rightarrow> 'c \<Rightarrow> call_log \<Rightarrow> (js_error + 'a) \<times> call_log" where
  "returning v client log = (Inr v, [])"

definition throwing :: "js_error \<Rightarrow> 'c \<Rightarrow> call_log \<Rightarrow> (js_error + unit) \<times> call_log" where
  "throwing e client log = (Inl e, [])"

section \<open>The transaction table of the specification\<close>

text \<open>
  One row of the table of nested transactions, in the specification's words: the
  statement issued on entry, the one issued when the callback succeeds and the one
  issued when it fails. \<open>body\<close> is the callback at the level it runs at. When the
  entry statement is refused the callback does not run; when the statement of the
  success path is itself refused, the statement of the error path follows it and the
  refusal is raised.
\<close>

definition bracketed ::
  "driver \<Rightarrow> (call_log \<Rightarrow> (js_error + 'a) \<times> call_log) \<Rightarrow> driver_call \<Rightarrow> driver_call \<Rightarrow> driver_call
     \<Rightarrow> call_log \<Rightarrow> (js_error + 'a) \<times> call_log \<Rightarrow> bool" where
  "bracketed drv body enter on_success on_error log0 out =
     (case drv log0 enter of
        Inl e0 \<Rightarrow> out = (Inl e0, log0 @ [enter])
      | Inr _ \<Rightarrow>
          (case body (log0 @ [enter]) of
             (Inl e, made) \<Rightarrow> out = (Inl e, log0 @ [enter] @ made @ [on_error])
           | (Inr v, made) \<Rightarrow>
               (case drv (log0 @ [enter] @ made) on_success of
                  Inr _ \<Rightarrow> out = (Inr v, log0 @ [enter] @ made @ [on_success])
                | Inl e \<Rightarrow> out = (Inl e, log0 @ [enter] @ made @ [on_success, on_error]))))"

section \<open>Nested transactions\<close>

text \<open>A case rule for rows of the transaction table.\<close>
lemma bracket_cases:
  assumes "\<And>e0. drv log0 enter = Inl e0 \<Longrightarrow> out = (Inl e0, log0 @ [enter])"
    and "\<And>rs e made. drv log0 enter = Inr rs \<Longrightarrow> body (log0 @ [enter]) = (Inl e, made)
            \<Longrightarrow> out = (Inl e, log0 @ [enter] @ made @ [on_error])"
    and "\<And>rs v made rs'. drv log0 enter = Inr rs \<Longrightarrow> body (log0 @ [enter]) = (Inr v, made)
            \<Longrightarrow> drv (log0 @ [enter] @ made) on_success = Inr rs'
            \<Longrightarrow> out = (Inr v, log0 @ [enter] @ made @ [on_success])"
    and "\<And>rs v made e. drv log0 enter = Inr rs \<Longrightarrow> body (log0 @ [enter]) = (Inr v, made)
            \<Longrightarrow> drv (log0 @ [enter] @ made) on_success = Inl e
            \<Longrightarrow> out = (Inl e, log0 @ [enter] @ made @ [on_success, on_error])"
  shows "bracketed drv body enter on_success on_error log0 out"
proof (cases "drv log0 enter")
  case (Inl e0)
  then show ?thesis using assms(1) by (simp add: bracketed_def)
next
  case entered: (Inr rs)
  obtain r made where b: "body (log0 @ [enter]) = (r, made)"
    by (cases "body (log0 @ [enter])")
  show ?thesis
  proof (cases r)
    case (Inl e)
    then show ?thesis using entered b assms(2) by (simp add: bracketed_def)
  next
    case ok: (Inr v)
    show ?thesis
    proof (cases "drv (log0 @ [enter] @ made) on_success")
      case (Inl e)
      then show ?thesis using entered b ok assms(4)[of rs v made e] by (simp add: bracketed_def)
    next
      case (Inr rs')
      then show ?thesis using entered b ok assms(3)[of rs v made rs'] by (simp add: bracketed_def)
    qed
  qed
qed

lemma np_withTransaction_top_level:
  "txLevel c = 0 \<and> \<not> alreadyInTransaction c \<Longrightarrow>
     bracketed drv (cb (c\<lparr>txLevel := 1\<rparr>)) (Query ''begin'' []) (Query ''commit'' [])
       (Query ''rollback'' []) log (np_withTransaction drv c cb log)"
  by (cases "drv log (Query ''begin'' [])";
      cases "cb (c\<lparr>txLevel := 1\<rparr>) (log @ [Query ''begin'' []])";
      cases "fst (cb (c\<lparr>txLevel := 1\<rparr>) (log @ [Query ''begin'' []]))";
      cases "drv (log @ Query ''begin'' [] # snd (cb (c\<lparr>txLevel := 1\<rparr>) (log @ [Query ''begin'' []])))
               (Query ''commit'' [])";
      simp add: bracketed_def np_withTransaction_def issue_def run_callback_def)

lemma np_withTransaction_pre_existing:
  "txLevel c = 0 \<and> alreadyInTransaction c \<Longrightarrow>
     bracketed drv (cb (c\<lparr>txLevel := 1\<rparr>)) (Query ''savepoint tx'' []) (Query ''release savepoint tx'' [])
       (Query ''rollback to savepoint tx'' []) log (np_withTransaction drv c cb log)"
  by (rule bracket_cases)
     (simp_all add: np_withTransaction_def issue_def run_callback_def)

lemma np_withTransaction_nested:
  "1 \<le> txLevel c \<Longrightarrow>
     bracketed drv (cb (c\<lparr>txLevel := txLevel c + 1\<rparr>))
       (Query (''savepoint tx'' @ string_of_nat (txLevel c)) [])
       (Query (''release savepoint tx'' @ string_of_nat (txLevel c)) [])
       (Query (''rollback to savepoint tx'' @ string_of_nat (txLevel c)) []) log
       (np_withTransaction drv c cb log)"
  by (rule bracket_cases)
     (simp_all add: np_withTransaction_def issue_def run_callback_def del: string_of_nat.simps)

lemma pglite_withTransaction_pre_existing:
  "pl_txLevel p = 0 \<and> pl_alreadyInTransaction p \<Longrightarrow>
     bracketed drv (cb (p\<lparr>pl_txLevel := 1\<rparr>)) (Exec ''SAVEPOINT tx'') (Exec ''RELEASE SAVEPOINT tx'')
       (Exec ''ROLLBACK TO SAVEPOINT tx'') log (pglite_withTransaction drv p cb log)"
  by (rule bracket_cases)
     (simp_all add: pglite_withTransaction_def issue_def run_callback_def)

lemma pglite_withTransaction_nested:
  "1 \<le> pl_txLevel p \<Longrightarrow>
     bracketed drv (cb (p\<lparr>pl_txLevel := pl_txLevel p + 1\<rparr>))
       (Exec (''SAVEPOINT tx'' @ string_of_nat (pl_txLevel p)))
       (Exec (''RELEASE SAVEPOINT tx'' @ string_of_nat (pl_txLevel p)))
       (Exec (''ROLLBACK TO SAVEPOINT tx'' @ string_of_nat (pl_txLevel p))) log
       (pglite_withTransaction drv p cb log)"
  by (rule bracket_cases)
     (simp_all add: pglite_withTransaction_def issue_def run_callback_def del: string_of_nat.simps)

lemma pglite_withTransaction_top_level:
  "pl_txLevel p = 0 \<and> \<not> pl_alreadyInTransaction p \<Longrightarrow>
     pglite_withTransaction drv p cb log =
       (case drv log NativeBegin of
          Inl e0 \<Rightarrow> (Inl e0, log @ [NativeBegin])
        | Inr _ \<Rightarrow>
           (case cb \<lparr>pl_txLevel = 1, pl_alreadyInTransaction = False\<rparr> (log @ [NativeBegin]) of
             (r, made) \<Rightarrow>
               (case drv (log @ [NativeBegin] @ made) (NativeEnd (case r of Inl _ \<Rightarrow> False | Inr _ \<Rightarrow> True)) of
                  Inl e1 \<Rightarrow> Inl e1
                | Inr _ \<Rightarrow> r,
                log @ [NativeBegin] @ made @ [NativeEnd (case r of Inl _ \<Rightarrow> False | Inr _ \<Rightarrow> True)])))"
  by (simp add: pglite_withTransaction_def native_transaction_def issue_def run_callback_def
      split: sum.split prod.split)

text \<open>
  Claim C1, as amended. In the node-postgres client every \<open>withTransaction\<close> follows
  the table: at level 0 outside a pre-existing transaction it issues \<open>begin\<close>, then
  \<open>commit\<close> on success or \<open>rollback\<close> on error; at level 0 in pre-existing mode
  \<open>savepoint tx\<close>, \<open>release savepoint tx\<close>, \<open>rollback to savepoint tx\<close>; at a
  pre-call level \<open>N \<ge> 1\<close> the same three statements on \<open>txN\<close>; the callback runs at
  level \<open>N + 1\<close>. The PGlite client issues the savepoint rows in upper case through
  \<open>exec\<close>, and at level 0 outside a pre-existing transaction it issues no statement
  of its own: it hands the callback, at level 1, to the driver's transaction
  primitive.
\<close>

theorem withTransaction_statements:
  "(txLevel c = 0 \<and> \<not> alreadyInTransaction c \<longrightarrow>
      bracketed drv (cb (c\<lparr>txLevel := 1\<rparr>))
        (Query ''begin'' []) (Query ''commit'' []) (Query ''rollback'' [])
        log (np_withTransaction drv c cb log))
   \<and> (txLevel c = 0 \<and> alreadyInTransaction c \<longrightarrow>
      bracketed drv (cb (c\<lparr>txLevel := 1\<rparr>))
        (Query ''savepoint tx'' []) (Query ''release savepoint tx'' [])
        (Query ''rollback to savepoint tx'' [])
        log (np_withTransaction drv c cb log))
   \<and> (1 \<le> txLevel c \<longrightarrow>
      bracketed drv (cb (c\<lparr>txLevel := txLevel c + 1\<rparr>))
        (Query (''savepoint tx'' @ string_of_nat (txLevel c)) [])
        (Query (''release savepoint tx'' @ string_of_nat (txLevel c)) [])
        (Query (''rollback to savepoint tx'' @ string_of_nat (txLevel c)) [])
        log (np_withTransaction drv c cb log))
   \<and> (pl_txLevel p = 0 \<and> pl_alreadyInTransaction p \<longrightarrow>
      bracketed drv (pcb (p\<lparr>pl_txLevel := 1\<rparr>))
        (Exec ''SAVEPOINT tx'') (Exec ''RELEASE SAVEPOINT tx'') (Exec ''ROLLBACK TO SAVEPOINT tx'')
        log (pglite_withTransaction drv p pcb log))
   \<and> (1 \<le> pl_txLevel p \<longrightarrow>
      bracketed drv (pcb (p\<lparr>pl_txLevel := pl_txLevel p + 1\<rparr>))
        (Exec (''SAVEPOINT tx'' @ string_of_nat (pl_txLevel p)))
        (Exec (''RELEASE SAVEPOINT tx'' @ string_of_nat (pl_txLevel p)))
        (Exec (''ROLLBACK TO SAVEPOINT tx'' @ string_of_nat (pl_txLevel p)))
        log (pglite_withTransaction drv p pcb log))
   \<and> (pl_txLevel p = 0 \<and> \<not> pl_alreadyInTransaction p \<longrightarrow>
      pglite_withTransaction drv p pcb log =
        (case drv log NativeBegin of
           Inl e0 \<Rightarrow> (Inl e0, log @ [NativeBegin])
         | Inr _ \<Rightarrow>
            (case pcb \<lparr>pl_txLevel = 1, pl_alreadyInTransaction = False\<rparr> (log @ [NativeBegin]) of
              (r, made) \<Rightarrow>
                (case drv (log @ [NativeBegin] @ made)
                        (NativeEnd (case r of Inl _ \<Rightarrow> False | Inr _ \<Rightarrow> True)) of
                   Inl e1 \<Rightarrow> Inl e1
                 | Inr _ \<Rightarrow> r,
                 log @ [NativeBegin] @ made @
                   [NativeEnd (case r of Inl _ \<Rightarrow> False | Inr _ \<Rightarrow> True)]))))"
  using np_withTransaction_top_level[of c drv cb log] np_withTransaction_pre_existing[of c drv cb log] np_withTransaction_nested[of c drv cb log]
    pglite_withTransaction_pre_existing[of p drv pcb log] pglite_withTransaction_nested[of p drv pcb log] pglite_withTransaction_top_level[of p drv pcb log]
  by blast

text \<open>
  Witness for C1: the amended claim at concrete clients, one for each row of both
  adapters, on a driver that accepts every call.
\<close>

theorem withTransaction_statements_witness:
  "np_withTransaction accepting_driver
       \<lparr>txLevel = 0, alwaysQueue = False, alreadyInTransaction = False\<rparr> (returning ()) []
     = (Inr (), [Query ''begin'' [], Query ''commit'' []])
   \<and> np_withTransaction accepting_driver
       \<lparr>txLevel = 0, alwaysQueue = False, alreadyInTransaction = True\<rparr> (throwing (Error ''boom'')) []
     = (Inl (Error ''boom''), [Query ''savepoint tx'' [], Query ''rollback to savepoint tx'' []])
   \<and> np_withTransaction accepting_driver
       \<lparr>txLevel = 2, alwaysQueue = False, alreadyInTransaction = False\<rparr> (returning ()) []
     = (Inr (), [Query ''savepoint tx2'' [], Query ''release savepoint tx2'' []])
   \<and> pglite_withTransaction accepting_driver
       \<lparr>pl_txLevel = 0, pl_alreadyInTransaction = True\<rparr> (returning ()) []
     = (Inr (), [Exec ''SAVEPOINT tx'', Exec ''RELEASE SAVEPOINT tx''])
   \<and> pglite_withTransaction accepting_driver
       \<lparr>pl_txLevel = 1, pl_alreadyInTransaction = False\<rparr> (throwing (Error ''boom'')) []
     = (Inl (Error ''boom''), [Exec ''SAVEPOINT tx1'', Exec ''ROLLBACK TO SAVEPOINT tx1''])
   \<and> pglite_withTransaction accepting_driver
       \<lparr>pl_txLevel = 0, pl_alreadyInTransaction = False\<rparr> (throwing (Error ''boom'')) []
     = (Inl (Error ''boom''), [NativeBegin, NativeEnd False])"
  using
    withTransaction_statements[where c = "\<lparr>txLevel = 0, alwaysQueue = False, alreadyInTransaction = False\<rparr>"
      and drv = accepting_driver and cb = "returning ()" and log = "[]"
      and p = "\<lparr>pl_txLevel = 0, pl_alreadyInTransaction = True\<rparr>" and pcb = "returning ()"]
    withTransaction_statements[where c = "\<lparr>txLevel = 0, alwaysQueue = False, alreadyInTransaction = True\<rparr>"
      and drv = accepting_driver and cb = "throwing (Error ''boom'')" and log = "[]"
      and p = "\<lparr>pl_txLevel = 1, pl_alreadyInTransaction = False\<rparr>" and pcb = "throwing (Error ''boom'')"]
    withTransaction_statements[where c = "\<lparr>txLevel = 2, alwaysQueue = False, alreadyInTransaction = False\<rparr>"
      and drv = accepting_driver and cb = "returning ()" and log = "[]"
      and p = "\<lparr>pl_txLevel = 0, pl_alreadyInTransaction = False\<rparr>" and pcb = "throwing (Error ''boom'')"]
  by (simp add: bracketed_def accepting_driver_def returning_def throwing_def digit_char_def)

text \<open>
  Counterexample to C1 as stated: at level 0 outside a pre-existing transaction the
  PGlite client makes two calls on its driver, the entry into and the settling of the
  driver's transaction primitive; neither \<open>BEGIN\<close> nor \<open>COMMIT\<close> is a statement it
  issues.
\<close>

theorem pglite_level0_issues_no_begin:
  "pglite_withTransaction accepting_driver \<lparr>pl_txLevel = 0, pl_alreadyInTransaction = False\<rparr>
     (returning ()) [] = (Inr (), [NativeBegin, NativeEnd True])"
  by (simp add: pglite_withTransaction_def native_transaction_def issue_def run_callback_def
      accepting_driver_def returning_def)

section \<open>Errors of the rollback\<close>

text \<open>
  The part of C3 that the code keeps: in \<open>withTransaction\<close> of the node-postgres and
  PGlite clients the rollback statement is issued inside a \<open>try\<close> of its own, so in
  every row of the transaction table the caller receives the callback's error whatever
  the rollback does.
\<close>

lemma bracketed_keeps_callback_error:
  "bracketed drv body enter on_success on_error log out \<Longrightarrow> drv log enter = Inr rs \<Longrightarrow>
     body (log @ [enter]) = (Inl e, made) \<Longrightarrow> fst out = Inl e"
  by (simp add: bracketed_def)

text \<open>
  Claim C3 at its failing input. \<open>withPgClient\<close> of the node-postgres pool is called
  with the settings \<open>{role: "app"}\<close>; the callback throws \<open>Error("boom")\<close>; the server
  rejects the \<open>rollback\<close> with \<open>Error("connection lost")\<close>. The caller receives the
  error of the rollback: the \<open>catch\<close> block of \<open>makeNodePostgresWithPgClient_inner\<close>
  awaits the rollback without guarding it.
\<close>

theorem withPgClient_rollback_error_replaces_callback_error:
  "np_withPgClient (rejecting ''rollback'' (Error ''connection lost''))
      (Some [(''role'', Some ''app'')]) (throwing (Error ''boom'')) []
   = (Inl (Error ''connection lost''),
      [Query ''begin'' [],
       Query ''select set_config(el->>0, el->>1, true) from json_array_elements($1::json) el''
         [JSON_stringify [(''role'', ''app'')]],
       Query ''rollback'' []])"
  by (simp add: np_withPgClient_def makeNodePostgresWithPgClient_inner_def issue_def
      run_callback_def rejecting_def throwing_def np_set_config_sql_def)

section \<open>Settings in the \<open>withPgClient\<close> envelope\<close>

text \<open>The entries sent are the entries with a value, in their order.\<close>

lemma non_null_entries_filter:
  "non_null_entries kvs = map (\<lambda>kv. (fst kv, the (snd kv))) (filter (\<lambda>kv. snd kv \<noteq> None) kvs)"
  by (induction kvs rule: non_null_entries.induct) simp_all

lemma non_null_entries_all_null:
  "list_all (\<lambda>kv. snd kv = None) kvs \<Longrightarrow> non_null_entries kvs = []"
  by (induction kvs rule: non_null_entries.induct) simp_all

lemma non_null_entries_nonempty: "non_null_entries kvs \<noteq> [] \<Longrightarrow> kvs \<noteq> []"
  by (cases kvs) simp_all

text \<open>
  The PGlite probes: one \<open>current_setting\<close> query for each key with a value, in order;
  with no such key nothing is asked.
\<close>

lemma capture_original_all_null:
  "non_null_entries kvs = [] \<Longrightarrow> capture_original drv kvs log = (Inr [], log)"
  by (induction kvs rule: non_null_entries.induct) simp_all

lemma capture_original_log:
  "capture_original drv kvs log = (Inr orig, log1) \<Longrightarrow>
     log1 = log @ map (\<lambda>kv. Query ''SELECT current_setting($1, true) as value'' [fst kv]) (non_null_entries kvs)
     \<and> map fst orig = map fst (non_null_entries kvs)"
proof (induction drv kvs log arbitrary: orig log1 rule: capture_original.induct)
  case (1 drv log)
  then show ?case by simp
next
  case (2 drv key kvs log)
  then show ?case by simp
next
  case (3 drv key v kvs log)
  then show ?case
    by (auto simp add: issue_def split: sum.splits prod.splits)
qed

text \<open>The \<open>finally\<close> block of the PGlite envelope only adds calls.\<close>

lemma reset_nulls_extends: "\<exists>tail. snd (reset_nulls drv settings orig l) = l @ tail"
proof (induction orig arbitrary: l)
  case Nil
  then show ?case by simp
next
  case (Cons a orig)
  obtain key v where a: "a = (key, v)" by (cases a)
  let ?call = "Exec (''RESET '' @ [CHR 0x22] @ escape_double_quotes key @ [CHR 0x22])"
  show ?case
  proof (cases "v = None \<and> (case map_of settings key of Some (Some _) \<Rightarrow> True | _ \<Rightarrow> False)")
    case False
    then show ?thesis using Cons.IH[of l] a by auto
  next
    case True
    show ?thesis
    proof (cases "drv l ?call")
      case (Inl e)
      then show ?thesis using True a by (simp add: issue_def)
    next
      case (Inr rs)
      obtain tail where "snd (reset_nulls drv settings orig (l @ [?call])) = (l @ [?call]) @ tail"
        using Cons.IH[of "l @ [?call]"] by blast
      then show ?thesis using True Inr a by (simp add: issue_def)
    qed
  qed
qed

lemma restore_settings_extends: "\<exists>tail. snd (restore_settings drv settings orig l) = l @ tail"
proof (cases "length orig > 0 \<and> length (non_null_entries orig) > 0")
  case False
  then show ?thesis
    using reset_nulls_extends[of drv settings orig l]
    by (auto simp add: restore_settings_def)
next
  case True
  let ?call = "Query pl_set_config_sql [JSON_stringify (non_null_entries orig)]"
  show ?thesis
  proof (cases "drv l ?call")
    case (Inl e)
    then show ?thesis using True by (simp add: restore_settings_def issue_def)
  next
    case (Inr rs)
    then show ?thesis
      using True reset_nulls_extends[of drv settings orig "l @ [?call]"]
      by (auto simp add: restore_settings_def issue_def)
  qed
qed

text \<open>
  The calls of each envelope when at least one setting has a value and the
  transaction (or the probes) went through.
\<close>

lemma np_settings_shape:
  assumes nn: "non_null_entries kvs \<noteq> []" and entered: "drv log (Query ''begin'' []) = Inr rs"
  shows "\<exists>closing. closing \<in> {[Query ''commit'' []], [Query ''commit'' [], Query ''rollback'' []],
                                 [Query ''rollback'' []]} \<and>
           snd (np_withPgClient drv (Some kvs) cb log) =
             log @ [Query ''begin'' [], Query np_set_config_sql [JSON_stringify (non_null_entries kvs)]] @
             (case drv (log @ [Query ''begin'' []])
                     (Query np_set_config_sql [JSON_stringify (non_null_entries kvs)]) of
                Inl _ \<Rightarrow> []
              | Inr _ \<Rightarrow>
                  snd (cb \<lparr>txLevel = 1, alwaysQueue = False, alreadyInTransaction = False\<rparr>
                         (log @ [Query ''begin'' [],
                                 Query np_set_config_sql [JSON_stringify (non_null_entries kvs)]]))) @
             closing"
proof -
  let ?q = "Query np_set_config_sql [JSON_stringify (non_null_entries kvs)]"
  let ?c = "\<lparr>txLevel = 1, alwaysQueue = False, alreadyInTransaction = False\<rparr>"
  note defs = np_withPgClient_def makeNodePostgresWithPgClient_inner_def issue_def run_callback_def
  show ?thesis
  proof (cases "drv (log @ [Query ''begin'' []]) ?q")
    case (Inl e)
    then show ?thesis using nn entered
      by (cases "drv (log @ [Query ''begin'' [], ?q]) (Query ''rollback'' [])") (simp_all add: defs)
  next
    case applied: (Inr rs')
    obtain r made where cb: "cb ?c (log @ [Query ''begin'' [], ?q]) = (r, made)"
      by (cases "cb ?c (log @ [Query ''begin'' [], ?q])")
    show ?thesis
    proof (cases r)
      case (Inl e)
      then show ?thesis using nn entered applied cb
        by (cases "drv (log @ [Query ''begin'' [], ?q] @ made) (Query ''rollback'' [])")
           (simp_all add: defs)
    next
      case ok: (Inr v)
      show ?thesis
      proof (cases "drv (log @ [Query ''begin'' [], ?q] @ made) (Query ''commit'' [])")
        case (Inr rs'')
        then show ?thesis using nn entered applied cb ok by (simp add: defs)
      next
        case (Inl e)
        then show ?thesis using nn entered applied cb ok
          by (cases "drv (log @ [Query ''begin'' [], ?q] @ made @ [Query ''commit'' []]) (Query ''rollback'' [])")
             (simp_all add: defs)
      qed
    qed
  qed
qed

lemma pj_settings_shape:
  assumes nn: "non_null_entries kvs \<noteq> []" and entered: "drv log NativeBegin = Inr rs"
  shows "\<exists>b. snd (postgresjs_withPgClient drv aq (Some kvs) cb log) =
             log @ [NativeBegin, Query pj_set_config_sql [JSON_stringify (non_null_entries kvs)]] @
             (case drv (log @ [NativeBegin])
                     (Query pj_set_config_sql [JSON_stringify (non_null_entries kvs)]) of
                Inl _ \<Rightarrow> []
              | Inr _ \<Rightarrow>
                  snd (cb \<lparr>pj_in_begin = True, pj_alwaysQueue = aq\<rparr>
                         (log @ [NativeBegin,
                                 Query pj_set_config_sql [JSON_stringify (non_null_entries kvs)]]))) @
             [NativeEnd b]"
proof -
  let ?q = "Query pj_set_config_sql [JSON_stringify (non_null_entries kvs)]"
  let ?c = "\<lparr>pj_in_begin = True, pj_alwaysQueue = aq\<rparr>"
  note defs = postgresjs_withPgClient_def native_transaction_def issue_def run_callback_def
  have ne: "kvs \<noteq> []" using nn by (rule non_null_entries_nonempty)
  show ?thesis
  proof (cases "drv (log @ [NativeBegin]) ?q")
    case (Inl e)
    then show ?thesis using nn ne entered
      by (cases "drv (log @ [NativeBegin, ?q]) (NativeEnd False)") (auto simp add: defs)
  next
    case applied: (Inr rs')
    obtain r made where cb: "cb ?c (log @ [NativeBegin, ?q]) = (r, made)"
      by (cases "cb ?c (log @ [NativeBegin, ?q])")
    show ?thesis using nn ne entered applied cb
      by (cases r;
          cases "drv (log @ [NativeBegin, ?q] @ made) (NativeEnd False)";
          cases "drv (log @ [NativeBegin, ?q] @ made) (NativeEnd True)")
         (auto simp add: defs)
  qed
qed

lemma pl_settings_shape:
  assumes nn: "non_null_entries kvs \<noteq> []"
    and captured: "capture_original drv kvs log = (Inr orig, log1)"
  shows "snd (pglite_withPgClient drv (Some kvs) cb log) =
           snd (restore_settings drv kvs orig
                  (log1 @ [Query pl_set_config_sql [JSON_stringify (non_null_entries kvs)]] @
                   (case drv log1 (Query pl_set_config_sql [JSON_stringify (non_null_entries kvs)]) of
                      Inl _ \<Rightarrow> []
                    | Inr _ \<Rightarrow>
                        snd (cb \<lparr>pl_txLevel = 0, pl_alreadyInTransaction = False\<rparr>
                               (log1 @ [Query pl_set_config_sql [JSON_stringify (non_null_entries kvs)]])))))"
proof -
  let ?q = "Query pl_set_config_sql [JSON_stringify (non_null_entries kvs)]"
  let ?c = "\<lparr>pl_txLevel = 0, pl_alreadyInTransaction = False\<rparr>"
  note defs = pglite_withPgClient_def issue_def run_callback_def
  have ne: "kvs \<noteq> []" using nn by (rule non_null_entries_nonempty)
  show ?thesis
  proof (cases "drv log1 ?q")
    case (Inl e)
    then show ?thesis using nn ne captured
      by (cases "restore_settings drv kvs orig (log1 @ [?q])"; cases "fst (restore_settings drv kvs orig (log1 @ [?q]))")
         (simp_all add: defs)
  next
    case applied: (Inr rs')
    obtain r made where cb: "cb ?c (log1 @ [?q]) = (r, made)"
      by (cases "cb ?c (log1 @ [?q])")
    show ?thesis using nn ne captured applied cb
      by (cases "restore_settings drv kvs orig (log1 @ [?q] @ made)";
          cases "fst (restore_settings drv kvs orig (log1 @ [?q] @ made))")
         (simp_all add: defs)
  qed
qed

text \<open>The envelopes when no setting has a value.\<close>

lemma np_all_null:
  "non_null_entries kvs = [] \<Longrightarrow>
     np_withPgClient drv (Some kvs) cb log =
       run_callback cb \<lparr>txLevel = 0, alwaysQueue = False, alreadyInTransaction = False\<rparr> log"
  by (simp add: np_withPgClient_def makeNodePostgresWithPgClient_inner_def)

lemma pl_all_null:
  "non_null_entries kvs = [] \<Longrightarrow>
     pglite_withPgClient drv (Some kvs) cb log =
       run_callback cb \<lparr>pl_txLevel = 0, pl_alreadyInTransaction = False\<rparr> log"
  by (cases "run_callback cb \<lparr>pl_txLevel = 0, pl_alreadyInTransaction = False\<rparr> log")
     (simp add: pglite_withPgClient_def capture_original_all_null restore_settings_def)

lemma pj_all_null:
  "non_null_entries kvs = [] \<Longrightarrow>
     postgresjs_withPgClient drv aq (Some kvs) cb log =
       (if kvs = [] then run_callback cb \<lparr>pj_in_begin = False, pj_alwaysQueue = aq\<rparr> log
        else native_transaction drv (run_callback cb \<lparr>pj_in_begin = True, pj_alwaysQueue = aq\<rparr>) log)"
  by (simp add: postgresjs_withPgClient_def)

text \<open>
  Claim C2, as amended. When at least one setting has a non-null value, each adapter
  applies the settings in one query of its own, right after entering its transaction
  (node-postgres, postgres.js) or after its probes (PGlite); the envelope's other calls
  are the closing \<open>commit\<close>/\<open>rollback\<close>, the settling of the driver's transaction, or
  the PGlite restore. The single bound parameter is the JSON array of the
  \<open>[key, value]\<close> pairs with a value. The text is exact per adapter: lower-case
  keywords with \<open>true\<close> for node-postgres, upper-case keywords with \<open>true\<close> for
  postgres.js, upper-case keywords with \<open>false\<close> for PGlite.
\<close>

theorem settings_applied_in_one_query:
  "np_set_config_sql = ''select set_config(el->>0, el->>1, true) from json_array_elements($1::json) el''
   \<and> pj_set_config_sql = ''SELECT set_config(el->>0, el->>1, true) FROM json_array_elements($1::json) el''
   \<and> pl_set_config_sql = ''SELECT set_config(el->>0, el->>1, false) FROM json_array_elements($1::json) el''
   \<and> (non_null_entries kvs \<noteq> [] \<and> drv log (Query ''begin'' []) = Inr rs \<longrightarrow>
        (\<exists>closing. closing \<in> {[Query ''commit'' []], [Query ''commit'' [], Query ''rollback'' []],
                                 [Query ''rollback'' []]} \<and>
           snd (np_withPgClient drv (Some kvs) cb log) =
             log @ [Query ''begin'' [], Query np_set_config_sql [JSON_stringify (non_null_entries kvs)]] @
             (case drv (log @ [Query ''begin'' []])
                     (Query np_set_config_sql [JSON_stringify (non_null_entries kvs)]) of
                Inl _ \<Rightarrow> []
              | Inr _ \<Rightarrow>
                  snd (cb \<lparr>txLevel = 1, alwaysQueue = False, alreadyInTransaction = False\<rparr>
                         (log @ [Query ''begin'' [],
                                 Query np_set_config_sql [JSON_stringify (non_null_entries kvs)]]))) @
             closing))
   \<and> (non_null_entries kvs \<noteq> [] \<and> drv log NativeBegin = Inr rs \<longrightarrow>
        (\<exists>b. snd (postgresjs_withPgClient drv aq (Some kvs) jcb log) =
             log @ [NativeBegin, Query pj_set_config_sql [JSON_stringify (non_null_entries kvs)]] @
             (case drv (log @ [NativeBegin])
                     (Query pj_set_config_sql [JSON_stringify (non_null_entries kvs)]) of
                Inl _ \<Rightarrow> []
              | Inr _ \<Rightarrow>
                  snd (jcb \<lparr>pj_in_begin = True, pj_alwaysQueue = aq\<rparr>
                         (log @ [NativeBegin,
                                 Query pj_set_config_sql [JSON_stringify (non_null_entries kvs)]]))) @
             [NativeEnd b]))
   \<and> (non_null_entries kvs \<noteq> [] \<and> capture_original drv kvs log = (Inr orig, log1) \<longrightarrow>
        log1 = log @ map (\<lambda>kv. Query ''SELECT current_setting($1, true) as value'' [fst kv])
                      (non_null_entries kvs)
        \<and> snd (pglite_withPgClient drv (Some kvs) pcb log) =
           snd (restore_settings drv kvs orig
                  (log1 @ [Query pl_set_config_sql [JSON_stringify (non_null_entries kvs)]] @
                   (case drv log1 (Query pl_set_config_sql [JSON_stringify (non_null_entries kvs)]) of
                      Inl _ \<Rightarrow> []
                    | Inr _ \<Rightarrow>
                        snd (pcb \<lparr>pl_txLevel = 0, pl_alreadyInTransaction = False\<rparr>
                               (log1 @ [Query pl_set_config_sql [JSON_stringify (non_null_entries kvs)]]))))))"
  using np_settings_shape[of kvs drv log rs cb] pj_settings_shape[of kvs drv log rs aq jcb]
    pl_settings_shape[of kvs drv log orig log1 pcb] capture_original_log[of drv kvs log orig log1]
  by (simp add: np_set_config_sql_def pj_set_config_sql_def pl_set_config_sql_def)

text \<open>
  Witness for C2: the settings \<open>{timezone: "UTC"}\<close> on a driver that accepts every
  call, in the three adapters.
\<close>

theorem settings_applied_in_one_query_witness:
  "take 2 (snd (np_withPgClient accepting_driver (Some [(''timezone'', Some ''UTC'')]) (returning ()) [])) =
     [Query ''begin'' [],
      Query ''select set_config(el->>0, el->>1, true) from json_array_elements($1::json) el''
        [JSON_stringify [(''timezone'', ''UTC'')]]]
   \<and> take 2 (snd (postgresjs_withPgClient accepting_driver False (Some [(''timezone'', Some ''UTC'')])
            (returning ()) [])) =
     [NativeBegin,
      Query ''SELECT set_config(el->>0, el->>1, true) FROM json_array_elements($1::json) el''
        [JSON_stringify [(''timezone'', ''UTC'')]]]
   \<and> snd (pglite_withPgClient accepting_driver (Some [(''timezone'', Some ''UTC'')]) (returning ()) []) =
     [Query ''SELECT current_setting($1, true) as value'' [''timezone''],
      Query ''SELECT set_config(el->>0, el->>1, false) FROM json_array_elements($1::json) el''
        [JSON_stringify [(''timezone'', ''UTC'')]],
      Exec (''RESET '' @ [CHR 0x22] @ ''timezone'' @ [CHR 0x22])]"
proof -
  have captured: "capture_original accepting_driver [(''timezone'', Some ''UTC'')] [] =
      (Inr [(''timezone'', None)], [Query ''SELECT current_setting($1, true) as value'' [''timezone'']])"
    by (simp add: issue_def accepting_driver_def first_value_def)
  have restored: "snd (restore_settings accepting_driver [(''timezone'', Some ''UTC'')] [(''timezone'', None)]
      [Query ''SELECT current_setting($1, true) as value'' [''timezone''],
       Query pl_set_config_sql [JSON_stringify [(''timezone'', ''UTC'')]]]) =
     [Query ''SELECT current_setting($1, true) as value'' [''timezone''],
      Query pl_set_config_sql [JSON_stringify [(''timezone'', ''UTC'')]],
      Exec (''RESET '' @ [CHR 0x22] @ ''timezone'' @ [CHR 0x22])]"
    by (simp add: restore_settings_def issue_def accepting_driver_def escape_double_quotes_def)
  show ?thesis
    using settings_applied_in_one_query[where kvs = "[(''timezone'', Some ''UTC'')]"
        and drv = accepting_driver and log = "[]" and rs = "[]" and cb = "returning ()"
        and aq = False and jcb = "returning ()" and pcb = "returning ()"
        and orig = "[(''timezone'', None)]"
        and ?log1.0 = "[Query ''SELECT current_setting($1, true) as value'' [''timezone'']]"]
      captured restored
    by (auto simp add: accepting_driver_def returning_def)
qed

text \<open>
  Counterexample to C2 as stated: the node-postgres envelope sends the statement with
  lower-case keywords, which is not, character for character, the text the claim
  gives for the pooled backend.
\<close>

theorem node_postgres_set_config_is_lower_case:
  "snd (np_withPgClient accepting_driver (Some [(''timezone'', Some ''UTC'')]) (returning ()) []) =
     [Query ''begin'' [],
      Query ''select set_config(el->>0, el->>1, true) from json_array_elements($1::json) el''
        [JSON_stringify [(''timezone'', ''UTC'')]],
      Query ''commit'' []]
   \<and> ''select set_config(el->>0, el->>1, true) from json_array_elements($1::json) el''
       \<noteq> ''SELECT set_config(el->>0, el->>1, true) FROM json_array_elements($1::json) el''"
  by (simp add: np_withPgClient_def makeNodePostgresWithPgClient_inner_def issue_def
      run_callback_def accepting_driver_def returning_def np_set_config_sql_def)

text \<open>
  Claim C9. In the three adapters the payload of \<open>set_config\<close> is built from the
  entries whose value is neither \<open>null\<close> nor \<open>undefined\<close>, in their order, so only keys
  bound to a value appear in it (the PGlite probes and restore range over the same
  keys); and when every value is \<open>null\<close> or \<open>undefined\<close> the envelope issues no
  \<open>set_config\<close> query: node-postgres and PGlite run the callback alone, at level 0,
  and postgres.js runs it alone inside the driver's transaction.
\<close>

theorem null_settings_are_omitted:
  "non_null_entries kvs = map (\<lambda>kv. (fst kv, the (snd kv))) (filter (\<lambda>kv. snd kv \<noteq> None) kvs)
   \<and> (non_null_entries kvs \<noteq> [] \<and> drv log (Query ''begin'' []) = Inr rs \<longrightarrow>
        (\<exists>rest. snd (np_withPgClient drv (Some kvs) cb log) =
           log @ [Query ''begin'' [], Query np_set_config_sql [JSON_stringify (non_null_entries kvs)]] @ rest))
   \<and> (non_null_entries kvs \<noteq> [] \<and> drv log NativeBegin = Inr rs \<longrightarrow>
        (\<exists>rest. snd (postgresjs_withPgClient drv aq (Some kvs) jcb log) =
           log @ [NativeBegin, Query pj_set_config_sql [JSON_stringify (non_null_entries kvs)]] @ rest))
   \<and> (non_null_entries kvs \<noteq> [] \<and> capture_original drv kvs log = (Inr orig, log1) \<longrightarrow>
        map fst orig = map fst (non_null_entries kvs) \<and>
        (\<exists>rest. snd (pglite_withPgClient drv (Some kvs) pcb log) =
           log1 @ [Query pl_set_config_sql [JSON_stringify (non_null_entries kvs)]] @ rest))
   \<and> (list_all (\<lambda>kv. snd kv = None) kvs \<longrightarrow>
        np_withPgClient drv (Some kvs) cb log =
          run_callback cb \<lparr>txLevel = 0, alwaysQueue = False, alreadyInTransaction = False\<rparr> log
        \<and> pglite_withPgClient drv (Some kvs) pcb log =
          run_callback pcb \<lparr>pl_txLevel = 0, pl_alreadyInTransaction = False\<rparr> log
        \<and> postgresjs_withPgClient drv aq (Some kvs) jcb log =
          (if kvs = [] then run_callback jcb \<lparr>pj_in_begin = False, pj_alwaysQueue = aq\<rparr> log
           else native_transaction drv
                  (run_callback jcb \<lparr>pj_in_begin = True, pj_alwaysQueue = aq\<rparr>) log))"
proof -
  have np: "non_null_entries kvs \<noteq> [] \<and> drv log (Query ''begin'' []) = Inr rs \<longrightarrow>
        (\<exists>rest. snd (np_withPgClient drv (Some kvs) cb log) =
           log @ [Query ''begin'' [], Query np_set_config_sql [JSON_stringify (non_null_entries kvs)]] @ rest)"
    using np_settings_shape[of kvs drv log rs cb] by blast
  have pj: "non_null_entries kvs \<noteq> [] \<and> drv log NativeBegin = Inr rs \<longrightarrow>
        (\<exists>rest. snd (postgresjs_withPgClient drv aq (Some kvs) jcb log) =
           log @ [NativeBegin, Query pj_set_config_sql [JSON_stringify (non_null_entries kvs)]] @ rest)"
    using pj_settings_shape[of kvs drv log rs aq jcb] by blast
  have pl: "non_null_entries kvs \<noteq> [] \<and> capture_original drv kvs log = (Inr orig, log1) \<longrightarrow>
        map fst orig = map fst (non_null_entries kvs) \<and>
        (\<exists>rest. snd (pglite_withPgClient drv (Some kvs) pcb log) =
           log1 @ [Query pl_set_config_sql [JSON_stringify (non_null_entries kvs)]] @ rest)"
  proof (intro impI, elim conjE)
    assume nn: "non_null_entries kvs \<noteq> []" and cap: "capture_original drv kvs log = (Inr orig, log1)"
    let ?q = "Query pl_set_config_sql [JSON_stringify (non_null_entries kvs)]"
    let ?mid = "case drv log1 ?q of Inl _ \<Rightarrow> []
                | Inr _ \<Rightarrow> snd (pcb \<lparr>pl_txLevel = 0, pl_alreadyInTransaction = False\<rparr> (log1 @ [?q]))"
    obtain tail where "snd (restore_settings drv kvs orig (log1 @ [?q] @ ?mid)) = (log1 @ [?q] @ ?mid) @ tail"
      using restore_settings_extends[of drv kvs orig "log1 @ [?q] @ ?mid"] by blast
    then have "snd (pglite_withPgClient drv (Some kvs) pcb log) = log1 @ [?q] @ (?mid @ tail)"
      using pl_settings_shape[OF nn cap, of pcb] by simp
    then show "map fst orig = map fst (non_null_entries kvs) \<and>
        (\<exists>rest. snd (pglite_withPgClient drv (Some kvs) pcb log) = log1 @ [?q] @ rest)"
      using capture_original_log[OF cap] by blast
  qed
  have none: "list_all (\<lambda>kv. snd kv = None) kvs \<longrightarrow>
        np_withPgClient drv (Some kvs) cb log =
          run_callback cb \<lparr>txLevel = 0, alwaysQueue = False, alreadyInTransaction = False\<rparr> log
        \<and> pglite_withPgClient drv (Some kvs) pcb log =
          run_callback pcb \<lparr>pl_txLevel = 0, pl_alreadyInTransaction = False\<rparr> log
        \<and> postgresjs_withPgClient drv aq (Some kvs) jcb log =
          (if kvs = [] then run_callback jcb \<lparr>pj_in_begin = False, pj_alwaysQueue = aq\<rparr> log
           else native_transaction drv
                  (run_callback jcb \<lparr>pj_in_begin = True, pj_alwaysQueue = aq\<rparr>) log)"
    using non_null_entries_all_null[of kvs] np_all_null[of kvs drv cb log]
      pl_all_null[of kvs drv pcb log] pj_all_null[of kvs drv aq jcb log]
    by blast
  show ?thesis
    using non_null_entries_filter[of kvs] np pj pl none by blast
qed

text \<open>
  Witness for C9: \<open>{role: "app", timezone: undefined}\<close> sends the pair for \<open>role\<close>
  only, and \<open>{timezone: undefined}\<close> sends nothing.
\<close>

theorem null_settings_are_omitted_witness:
  "non_null_entries [(''role'', Some ''app''), (''timezone'', None)] = [(''role'', ''app'')]
   \<and> take 2 (snd (np_withPgClient accepting_driver (Some [(''role'', Some ''app''), (''timezone'', None)])
                 (returning ()) [])) =
       [Query ''begin'' [], Query np_set_config_sql [JSON_stringify [(''role'', ''app'')]]]
   \<and> np_withPgClient accepting_driver (Some [(''timezone'', None)]) (returning ()) [] = (Inr (), [])
   \<and> pglite_withPgClient accepting_driver (Some [(''timezone'', None)]) (returning ()) [] = (Inr (), [])
   \<and> postgresjs_withPgClient accepting_driver False (Some [(''timezone'', None)]) (returning ()) [] =
       (Inr (), [NativeBegin, NativeEnd True])"
  using null_settings_are_omitted[where kvs = "[(''role'', Some ''app''), (''timezone'', None)]"
      and drv = accepting_driver and log = "[]" and rs = "[]" and cb = "returning ()"
      and pcb = "returning ()" and jcb = "returning ()" and aq = False and orig = "[]"
      and ?log1.0 = "[]"]
    null_settings_are_omitted[where kvs = "[(''timezone'', None)]"
      and drv = accepting_driver and log = "[]" and rs = "[]" and cb = "returning ()"
      and pcb = "returning ()" and jcb = "returning ()" and aq = False and orig = "[]"
      and ?log1.0 = "[]"]
  by (auto simp add: accepting_driver_def returning_def run_callback_def native_transaction_def
      issue_def)

section \<open>The LRU prepared-statement manager: what a call leaves untouched\<close>

text \<open>The example state \<open>world_with_q1\<close> is the state after one query.\<close>

lemma world_with_q1_reached:
  "run_queries (Suc 0) example_manager md5_of_examples accepting_executor never
     [(ObjectKey 0, Some ''q1'', ''select a($1)'', [VOther ''1''])] empty_world = Some world_with_q1"
  by code_simp

text \<open>A state that is filed is found again; a state just created is filed.\<close>

lemma getConnectionState_present:
  "storage_get clientKey w = Some a \<Longrightarrow> getConnectionState clientKey m w = (a, w)"
  by (simp add: getConnectionState_def)

lemma getConnectionState_files_the_state:
  "getConnectionState clientKey m w = (a, w0) \<Longrightarrow> storage_get clientKey w0 = Some a"
  by (cases clientKey)
     (auto simp add: getConnectionState_def storage_get_def Let_def map_add_def
       split: option.splits)

lemma storage_get_frame:
  "stringKeyStates w' = stringKeyStates w \<Longrightarrow> connectionStates w' = connectionStates w \<Longrightarrow>
     storage_get clientKey w' = storage_get clientKey w"
  by (cases clientKey) (simp_all add: storage_get_def)

text \<open>
  Writing a state back, calling the executor, evicting and preparing change neither
  table, nor the count of random draws, nor the size of the store.
\<close>

lemma set_state_frame:
  "stringKeyStates (set_state a st w) = stringKeyStates w"
  "connectionStates (set_state a st w) = connectionStates w"
  "executor_calls (set_state a st w) = executor_calls w"
  "random_draws (set_state a st w) = random_draws w"
  "length (heap (set_state a st w)) = length (heap w)"
  by (simp_all add: set_state_def)

lemma call_executor_frame:
  "stringKeyStates (snd (call_executor exec call w)) = stringKeyStates w"
  "connectionStates (snd (call_executor exec call w)) = connectionStates w"
  "heap (snd (call_executor exec call w)) = heap w"
  "random_draws (snd (call_executor exec call w)) = random_draws w"
  "executor_calls (snd (call_executor exec call w)) = executor_calls w @ [call]"
  by (simp_all add: call_executor_def)

lemma evict_overflow_frame:
  "stringKeyStates (evict_overflow mgr exec a st w) = stringKeyStates w
   \<and> connectionStates (evict_overflow mgr exec a st w) = connectionStates w
   \<and> random_draws (evict_overflow mgr exec a st w) = random_draws w
   \<and> length (heap (evict_overflow mgr exec a st w)) = length (heap w)"
  by (cases "find_evictable (cs_statements st) (cs_lru st)";
      cases "fst (find_evictable (cs_statements st) (cs_lru st))")
     (simp_all add: evict_overflow_def set_state_def call_executor_def)

text \<open>The three ways through \<open>ensure_prepared\<close>: a hit, a failed \<open>PREPARE\<close>, a new statement.\<close>

lemma ensure_prepared_hit: "map_of (cs_statements (heap w ! a)) key = Some stmt \<Longrightarrow>
  ensure_prepared mgr exec a key queryText vals w =
    (Some stmt, set_state a ((heap w ! a)\<lparr>cs_lru := snd (lru_get key (cs_lru (heap w ! a)))\<rparr>) w)"
  by (simp add: ensure_prepared_def Let_def)

lemma ensure_prepared_prepare_fails: "map_of (cs_statements (heap w ! a)) key = None \<Longrightarrow>
   exec (executor_calls w) (Call (''PREPARE '' @ statementPrefix mgr @ ''_'' @ managerId mgr @ ''_'' @
             string_of_nat (cs_counter (heap w ! a)) @ '' AS '' @ queryText) None) = Inl err \<Longrightarrow>
  ensure_prepared mgr exec a key queryText vals w =
    (None, snd (call_executor exec (Call (''PREPARE '' @ statementPrefix mgr @ ''_'' @ managerId mgr @ ''_'' @
             string_of_nat (cs_counter (heap w ! a)) @ '' AS '' @ queryText) None)
       (set_state a ((heap w ! a)\<lparr>cs_counter := cs_counter (heap w ! a) + 1\<rparr>) w)))"
  by (simp add: ensure_prepared_def Let_def call_executor_def set_state_def del: string_of_nat.simps)

lemma ensure_prepared_prepared: "map_of (cs_statements (heap w ! a)) key = None \<Longrightarrow>
   exec (executor_calls w) (Call (''PREPARE '' @ statementPrefix mgr @ ''_'' @ managerId mgr @ ''_'' @
             string_of_nat (cs_counter (heap w ! a)) @ '' AS '' @ queryText) None) = Inr r \<Longrightarrow>
  ensure_prepared mgr exec a key queryText vals w =
    (Some \<lparr>ps_name = statementPrefix mgr @ ''_'' @ managerId mgr @ ''_'' @
             string_of_nat (cs_counter (heap w ! a)), ps_text = queryText, ps_paramCount = length vals\<rparr>,
     evict_overflow mgr exec a
       ((heap w ! a)\<lparr>cs_counter := cs_counter (heap w ! a) + 1,
          cs_statements := map_set key \<lparr>ps_name = statementPrefix mgr @ ''_'' @ managerId mgr @ ''_'' @
             string_of_nat (cs_counter (heap w ! a)), ps_text = queryText, ps_paramCount = length vals\<rparr>
             (cs_statements (heap w ! a)),
          cs_lru := lru_set key \<lparr>ps_name = statementPrefix mgr @ ''_'' @ managerId mgr @ ''_'' @
             string_of_nat (cs_counter (heap w ! a)), ps_text = queryText, ps_paramCount = length vals\<rparr>
             (cs_lru (heap w ! a))\<rparr>)
       (snd (call_executor exec (Call (''PREPARE '' @ statementPrefix mgr @ ''_'' @ managerId mgr @ ''_'' @
             string_of_nat (cs_counter (heap w ! a)) @ '' AS '' @ queryText) None)
          (set_state a ((heap w ! a)\<lparr>cs_counter := cs_counter (heap w ! a) + 1\<rparr>) w))))"
  by (simp add: ensure_prepared_def Let_def call_executor_def set_state_def del: string_of_nat.simps)

lemma ensure_prepared_frame:
  "stringKeyStates (snd (ensure_prepared mgr exec a key queryText vals w)) = stringKeyStates w
   \<and> connectionStates (snd (ensure_prepared mgr exec a key queryText vals w)) = connectionStates w
   \<and> random_draws (snd (ensure_prepared mgr exec a key queryText vals w)) = random_draws w
   \<and> length (heap (snd (ensure_prepared mgr exec a key queryText vals w))) = length (heap w)"
proof (cases "map_of (cs_statements (heap w ! a)) key")
  case (Some stmt)
  show ?thesis
    unfolding ensure_prepared_hit[OF Some] by (simp add: set_state_frame)
next
  case None
  let ?prep = "Call (''PREPARE '' @ statementPrefix mgr @ ''_'' @ managerId mgr @ ''_'' @
             string_of_nat (cs_counter (heap w ! a)) @ '' AS '' @ queryText) None"
  show ?thesis
  proof (cases "exec (executor_calls w) ?prep")
    case (Inl err)
    show ?thesis
      unfolding ensure_prepared_prepare_fails[where exec = exec and mgr = mgr and queryText = queryText and vals = vals, OF None Inl]
      by (simp add: call_executor_frame set_state_frame del: string_of_nat.simps)
  next
    case (Inr r)
    show ?thesis
      unfolding ensure_prepared_prepared[where exec = exec and mgr = mgr and queryText = queryText and vals = vals, OF None Inr]
      using evict_overflow_frame
      by (simp add: call_executor_frame set_state_frame del: string_of_nat.simps)
  qed
qed

lemma ensure_prepared_storage:
  "storage_get clientKey (snd (ensure_prepared mgr exec a key queryText vals w)) = storage_get clientKey w"
  using ensure_prepared_frame[of mgr exec a key queryText vals w]
  by (cases clientKey) (simp_all add: storage_get_def)

text \<open>The \<open>finally\<close> block touches the string table and the count of draws only.\<close>

lemma finally_block_frame:
  "heap (finally_block rnd clientKey w) = heap w
   \<and> executor_calls (finally_block rnd clientKey w) = executor_calls w
   \<and> connectionStates (finally_block rnd clientKey w) = connectionStates w"
  by (simp add: finally_block_def cleanupStringStates_def split: client_key.split list.split)

lemma map_of_map_delete: "map_of (map_delete key m) key = None"
  by (auto simp add: map_delete_def map_of_eq_None_iff)

text \<open>On a miss the first call on the executor is the \<open>PREPARE\<close> under a fresh name.\<close>

lemma evict_overflow_calls:
  "\<exists>rest. executor_calls (evict_overflow mgr exec a st w) = executor_calls w @ rest"
  by (cases "find_evictable (cs_statements st) (cs_lru st)";
      cases "fst (find_evictable (cs_statements st) (cs_lru st))")
     (simp_all add: evict_overflow_def set_state_def call_executor_def)

lemma ensure_prepared_miss_calls:
  assumes miss: "map_of (cs_statements (heap w ! a)) key = None"
  shows "\<exists>rest. executor_calls (snd (ensure_prepared mgr exec a key queryText vals w)) =
       executor_calls w @
       Call (''PREPARE '' @ statementPrefix mgr @ ''_'' @ managerId mgr @ ''_'' @
             string_of_nat (cs_counter (heap w ! a)) @ '' AS '' @ queryText) None # rest"
proof -
  let ?prep = "Call (''PREPARE '' @ statementPrefix mgr @ ''_'' @ managerId mgr @ ''_'' @
             string_of_nat (cs_counter (heap w ! a)) @ '' AS '' @ queryText) None"
  show ?thesis
  proof (cases "exec (executor_calls w) ?prep")
    case (Inl err)
    show ?thesis
      unfolding ensure_prepared_prepare_fails[where exec = exec and mgr = mgr and queryText = queryText and vals = vals, OF miss Inl]
      by (simp add: call_executor_frame set_state_frame del: string_of_nat.simps)
  next
    case (Inr r)
    have "\<exists>rest. executor_calls (snd (ensure_prepared mgr exec a key queryText vals w)) =
         executor_calls (snd (call_executor exec ?prep
           (set_state a ((heap w ! a)\<lparr>cs_counter := cs_counter (heap w ! a) + 1\<rparr>) w))) @ rest"
      unfolding ensure_prepared_prepared[where exec = exec and mgr = mgr and queryText = queryText and vals = vals, OF miss Inr] snd_conv
      by (rule evict_overflow_calls)
    then obtain rest where
      "executor_calls (snd (ensure_prepared mgr exec a key queryText vals w)) =
         executor_calls (snd (call_executor exec ?prep
           (set_state a ((heap w ! a)\<lparr>cs_counter := cs_counter (heap w ! a) + 1\<rparr>) w))) @ rest"
      by blast
    then show ?thesis
      by (simp add: call_executor_frame set_state_frame del: string_of_nat.simps)
  qed
qed

section \<open>Recovery from a lost statement\<close>

text \<open>
  Claim C4. A named query with values is run on a connection whose state is at
  address \<open>a\<close>; the statement is ready (cached, or just prepared) and the \<open>EXECUTE\<close>
  fails with \<open>err\<close>. If the message of \<open>err\<close> contains "does not exist", the entry of
  the statement key is removed and \<open>executeQuery\<close> runs once more from the lookup, on
  the state \<open>w_retry\<close> in which the key is absent, so that its first call on the
  executor is a \<open>PREPARE\<close> under the next statement name; while the connection state is
  still filed under the client key this is \<open>executeQuery\<close> itself on \<open>w_retry\<close>; and
  when the statement prepared by the retry executes, the caller receives that result
  (two attempts suffice). If the message does not contain the substring, or \<open>err\<close>
  has no message, the caller receives \<open>err\<close> itself.
\<close>

theorem missing_statement_is_retried_once:
  assumes named: "queryName = Some n" "n \<noteq> []" "vals \<noteq> []"
    and state: "getConnectionState clientKey (maxPreparedStatements mgr) w = (a, w0)"
    and addr: "a < length (heap w0)"
    and key: "key = generateStatementKey digest queryText (length vals)"
    and ready: "ensure_prepared mgr exec a key queryText vals w0 = (Some stmt, w1)"
    and fails: "exec (executor_calls w1) (Call (execute_text stmt vals) None) = Inl err"
    and retry: "w_retry = finally_block rnd clientKey
                  (set_state a ((heap w1 ! a)\<lparr>cs_statements := map_delete key (cs_statements (heap w1 ! a))\<rparr>)
                     (w1\<lparr>executor_calls := executor_calls w1 @ [Call (execute_text stmt vals) None]\<rparr>))"
  shows "(statement_is_missing err \<longrightarrow>
            executeQuery (Suc fuel) mgr digest exec rnd clientKey queryName queryText vals arrayMode w =
              execute_with_state fuel mgr exec rnd clientKey queryText vals arrayMode a key w_retry)
         \<and> key \<notin> set (statement_keys a w_retry)
         \<and> (\<exists>rest. executor_calls (snd (ensure_prepared mgr exec a key queryText vals w_retry)) =
               executor_calls w1 @
               [Call (execute_text stmt vals) None,
                Call (''PREPARE '' @ statementPrefix mgr @ ''_'' @ managerId mgr @ ''_'' @
                      string_of_nat (cs_counter (heap w1 ! a)) @ '' AS '' @ queryText) None] @ rest)
         \<and> (storage_get clientKey w_retry = Some a \<longrightarrow>
               execute_with_state fuel mgr exec rnd clientKey queryText vals arrayMode a key w_retry =
               executeQuery fuel mgr digest exec rnd clientKey queryName queryText vals arrayMode w_retry)
         \<and> (statement_is_missing err \<and> ensure_prepared mgr exec a key queryText vals w_retry = (Some stmt', w1')
              \<and> exec (executor_calls w1') (Call (execute_text stmt' vals) None) = Inr result \<longrightarrow>
               executeQuery (Suc (Suc fuel)) mgr digest exec rnd clientKey queryName queryText vals arrayMode w =
                 Some (Inr (map_result arrayMode result),
                       finally_block rnd clientKey
                         (w1'\<lparr>executor_calls := executor_calls w1' @ [Call (execute_text stmt' vals) None]\<rparr>)))
         \<and> (\<not> statement_is_missing err \<longrightarrow>
               executeQuery (Suc fuel) mgr digest exec rnd clientKey queryName queryText vals arrayMode w =
                 Some (Inl err,
                       finally_block rnd clientKey
                         (w1\<lparr>executor_calls := executor_calls w1 @ [Call (execute_text stmt vals) None]\<rparr>)))"
proof -
  let ?call = "Call (execute_text stmt vals) None"
  let ?w2 = "w1\<lparr>executor_calls := executor_calls w1 @ [?call]\<rparr>"
  let ?w3 = "set_state a ((heap w1 ! a)\<lparr>cs_statements := map_delete key (cs_statements (heap w1 ! a))\<rparr>) ?w2"
  have w1: "w1 = snd (ensure_prepared mgr exec a key queryText vals w0)"
    using ready by simp
  have len1: "length (heap w1) = length (heap w0)"
    using ensure_prepared_frame[of mgr exec a key queryText vals w0] w1 by simp
  have filed0: "storage_get clientKey w0 = Some a"
    using state by (rule getConnectionState_files_the_state)
  have filed1: "storage_get clientKey w1 = Some a"
    using filed0 ensure_prepared_storage[of clientKey mgr exec a key queryText vals w0] w1 by simp
  have filed3: "storage_get clientKey ?w3 = Some a"
    using filed1 storage_get_frame[of ?w3 w1 clientKey] by (simp add: set_state_def)
  have again: "getConnectionState clientKey (maxPreparedStatements mgr) ?w3 = (a, ?w3)"
    using filed3 by (rule getConnectionState_present)
  have step: "\<And>k. executeQuery (Suc k) mgr digest exec rnd clientKey queryName queryText vals arrayMode w =
       (if statement_is_missing err
        then execute_with_state k mgr exec rnd clientKey queryText vals arrayMode a key w_retry
        else Some (Inl err, finally_block rnd clientKey ?w2))"
    using named state ready fails again
    by (simp add: executeQuery_def key retry call_executor_def Let_def)
  have heap_retry: "heap w_retry ! a =
      (heap w1 ! a)\<lparr>cs_statements := map_delete key (cs_statements (heap w1 ! a))\<rparr>"
    using addr len1 finally_block_frame[of rnd clientKey ?w3]
    by (simp add: retry set_state_def)
  have calls_retry: "executor_calls w_retry = executor_calls w1 @ [?call]"
    using finally_block_frame[of rnd clientKey ?w3] by (simp add: retry set_state_def)
  have removed: "map_of (cs_statements (heap w_retry ! a)) key = None"
    by (simp add: heap_retry map_of_map_delete)
  then have absent: "key \<notin> set (statement_keys a w_retry)"
    by (simp add: statement_keys_def map_of_eq_None_iff)
  have reprepared: "\<exists>rest. executor_calls (snd (ensure_prepared mgr exec a key queryText vals w_retry)) =
               executor_calls w1 @
               [?call,
                Call (''PREPARE '' @ statementPrefix mgr @ ''_'' @ managerId mgr @ ''_'' @
                      string_of_nat (cs_counter (heap w1 ! a)) @ '' AS '' @ queryText) None] @ rest"
    using ensure_prepared_miss_calls[OF removed, of mgr exec queryText vals]
    by (simp add: calls_retry heap_retry del: string_of_nat.simps)
  have same: "storage_get clientKey w_retry = Some a \<longrightarrow>
               execute_with_state fuel mgr exec rnd clientKey queryText vals arrayMode a key w_retry =
               executeQuery fuel mgr digest exec rnd clientKey queryName queryText vals arrayMode w_retry"
    using named by (simp add: executeQuery_def key getConnectionState_present)
  have returns: "statement_is_missing err \<and> ensure_prepared mgr exec a key queryText vals w_retry = (Some stmt', w1')
              \<and> exec (executor_calls w1') (Call (execute_text stmt' vals) None) = Inr result \<longrightarrow>
               executeQuery (Suc (Suc fuel)) mgr digest exec rnd clientKey queryName queryText vals arrayMode w =
                 Some (Inr (map_result arrayMode result),
                       finally_block rnd clientKey
                         (w1'\<lparr>executor_calls := executor_calls w1' @ [Call (execute_text stmt' vals) None]\<rparr>))"
    using step[of "Suc fuel"] by (simp add: call_executor_def)
  show ?thesis
    using step[of fuel] absent reprepared same returns by simp
qed

text \<open>
  Witness for C4: \<open>select a($1)\<close> is cached as \<open>lru_k3x9qz_0\<close>; the third call on the
  executor, the \<open>EXECUTE\<close>, fails. With "prepared statement lru_k3x9qz_0 does not
  exist" the query is prepared again and its result returned; with "connection
  terminated" the caller receives that error.
\<close>

theorem missing_statement_is_retried_once_witness:
  "map_option fst
     (executeQuery (Suc (Suc 0)) example_manager md5_of_examples (failing_at 2 statement_lost) never
        (ObjectKey 0) (Some ''q1'') ''select a($1)'' [VOther ''1''] False world_with_q1)
   = Some (Inr (map_result False empty_result))
   \<and> map_option fst
     (executeQuery (Suc 0) example_manager md5_of_examples
        (failing_at 2 (Error ''connection terminated'')) never
        (ObjectKey 0) (Some ''q1'') ''select a($1)'' [VOther ''1''] False world_with_q1)
   = Some (Inl (Error ''connection terminated''))"
proof -
  let ?stmt0 = "\<lparr>ps_name = ''lru_k3x9qz_0'', ps_text = ''select a($1)'', ps_paramCount = 1\<rparr>"
  let ?stmt1 = "\<lparr>ps_name = ''lru_k3x9qz_1'', ps_text = ''select a($1)'', ps_paramCount = 1\<rparr>"
  have state: "getConnectionState (ObjectKey 0) (maxPreparedStatements example_manager) world_with_q1
                 = (0, world_with_q1)"
    by code_simp
  have addr: "0 < length (heap world_with_q1)"
    by code_simp
  have key: "''35a33c227ca0196d'' = generateStatementKey md5_of_examples ''select a($1)'' (length [VOther ''1''])"
    by code_simp
  have ready: "\<And>e. ensure_prepared example_manager (failing_at 2 e) 0 ''35a33c227ca0196d''
                 ''select a($1)'' [VOther ''1''] world_with_q1 = (Some ?stmt0, world_with_q1)"
    by (simp add: ensure_prepared_def world_with_q1_def set_state_def lru_get_def map_delete_def)
  have text0: "execute_text ?stmt0 [VOther ''1''] = ''EXECUTE lru_k3x9qz_0(1)''"
    by code_simp
  have fails: "\<And>e. failing_at 2 e (executor_calls world_with_q1) (Call (execute_text ?stmt0 [VOther ''1'']) None) = Inl e"
    by (simp add: failing_at_def world_with_q1_def)
  have retry: "world_retrying = finally_block never (ObjectKey 0)
                  (set_state 0 ((heap world_with_q1 ! 0)\<lparr>cs_statements := map_delete ''35a33c227ca0196d'' (cs_statements (heap world_with_q1 ! 0))\<rparr>)
                     (world_with_q1\<lparr>executor_calls := executor_calls world_with_q1 @ [Call (execute_text ?stmt0 [VOther ''1'']) None]\<rparr>))"
    unfolding text0 by (simp add: world_retrying_def)
  have missing: "statement_is_missing statement_lost"
    by code_simp
  have not_missing: "\<not> statement_is_missing (Error ''connection terminated'')"
    by code_simp
  have again: "ensure_prepared example_manager (failing_at 2 statement_lost) 0 ''35a33c227ca0196d''
                 ''select a($1)'' [VOther ''1''] world_retrying =
               (Some ?stmt1, snd (ensure_prepared example_manager (failing_at 2 statement_lost) 0
                 ''35a33c227ca0196d'' ''select a($1)'' [VOther ''1''] world_retrying))"
    by code_simp
  have accepted: "failing_at 2 statement_lost
        (executor_calls (snd (ensure_prepared example_manager (failing_at 2 statement_lost) 0
                 ''35a33c227ca0196d'' ''select a($1)'' [VOther ''1''] world_retrying)))
        (Call (execute_text ?stmt1 [VOther ''1'']) None) = Inr empty_result"
    by code_simp
  show ?thesis
    using
      missing_statement_is_retried_once[where queryName = "Some ''q1''" and n = "''q1''"
        and vals = "[VOther ''1'']" and clientKey = "ObjectKey 0" and mgr = example_manager
        and w = world_with_q1 and a = 0 and ?w0.0 = world_with_q1 and key = "''35a33c227ca0196d''"
        and digest = md5_of_examples and queryText = "''select a($1)''"
        and exec = "failing_at 2 statement_lost" and stmt = ?stmt0 and ?w1.0 = world_with_q1
        and err = statement_lost and w_retry = world_retrying and rnd = never
        and stmt' = ?stmt1
        and w1' = "snd (ensure_prepared example_manager (failing_at 2 statement_lost) 0
                 ''35a33c227ca0196d'' ''select a($1)'' [VOther ''1''] world_retrying)"
        and result = empty_result and fuel = 0 and arrayMode = False,
        OF _ _ _ state addr key ready fails retry]
      missing_statement_is_retried_once[where queryName = "Some ''q1''" and n = "''q1''"
        and vals = "[VOther ''1'']" and clientKey = "ObjectKey 0" and mgr = example_manager
        and w = world_with_q1 and a = 0 and ?w0.0 = world_with_q1 and key = "''35a33c227ca0196d''"
        and digest = md5_of_examples and queryText = "''select a($1)''"
        and exec = "failing_at 2 (Error ''connection terminated'')" and stmt = ?stmt0
        and ?w1.0 = world_with_q1
        and err = "Error ''connection terminated''" and w_retry = world_retrying and rnd = never
        and stmt' = ?stmt1 and w1' = world_with_q1
        and result = empty_result and fuel = 0 and arrayMode = False,
        OF _ _ _ state addr key ready fails retry]
      missing not_missing again accepted
    by simp
qed

section \<open>Eviction from the statement cache\<close>

text \<open>
  Claim C5 at its failing input. With a cap of 2, the named queries \<open>a\<close>, \<open>b\<close>, \<open>a\<close>,
  \<open>c\<close>, \<open>d\<close> are run on one connection, every call on the executor succeeding. When
  \<open>c\<close> is inserted the eviction loop reads \<open>a\<close> with \<open>state.lru.get\<close> before it finds
  \<open>b\<close>, which makes \<open>a\<close> the most recent entry of the LRU and \<open>c\<close> the least recent;
  so the insertion of \<open>d\<close> pushes \<open>c\<close> out of the LRU and \<open>c\<close>, the statement used
  last, is deallocated. The statements map ends with the keys of \<open>a\<close> and \<open>d\<close>, while
  the two most recently used keys are those of \<open>c\<close> and \<open>d\<close>.
\<close>

theorem lru_evicts_the_statement_used_last:
  "map_option (statement_keys 0)
     (run_queries (Suc 0) example_manager md5_of_examples accepting_executor never
        [(ObjectKey 0, Some ''q1'', ''select a($1)'', [VOther ''1'']),
         (ObjectKey 0, Some ''q2'', ''select b($1)'', [VOther ''1'']),
         (ObjectKey 0, Some ''q1'', ''select a($1)'', [VOther ''1'']),
         (ObjectKey 0, Some ''q3'', ''select c($1)'', [VOther ''1'']),
         (ObjectKey 0, Some ''q4'', ''select d($1)'', [VOther ''1''])] empty_world)
   = Some [''35a33c227ca0196d'', ''3fb71aa9aeab1680'']
   \<and> map_option executor_calls
     (run_queries (Suc 0) example_manager md5_of_examples accepting_executor never
        [(ObjectKey 0, Some ''q1'', ''select a($1)'', [VOther ''1'']),
         (ObjectKey 0, Some ''q2'', ''select b($1)'', [VOther ''1'']),
         (ObjectKey 0, Some ''q1'', ''select a($1)'', [VOther ''1'']),
         (ObjectKey 0, Some ''q3'', ''select c($1)'', [VOther ''1'']),
         (ObjectKey 0, Some ''q4'', ''select d($1)'', [VOther ''1''])] empty_world)
   = Some [Call ''PREPARE lru_k3x9qz_0 AS select a($1)'' None,
           Call ''EXECUTE lru_k3x9qz_0(1)'' None,
           Call ''PREPARE lru_k3x9qz_1 AS select b($1)'' None,
           Call ''EXECUTE lru_k3x9qz_1(1)'' None,
           Call ''EXECUTE lru_k3x9qz_0(1)'' None,
           Call ''PREPARE lru_k3x9qz_2 AS select c($1)'' None,
           Call ''DEALLOCATE lru_k3x9qz_1'' None,
           Call ''EXECUTE lru_k3x9qz_2(1)'' None,
           Call ''PREPARE lru_k3x9qz_3 AS select d($1)'' None,
           Call ''DEALLOCATE lru_k3x9qz_2'' None,
           Call ''EXECUTE lru_k3x9qz_3(1)'' None]"
  by code_simp

section \<open>The table of string-keyed connection states\<close>

lemma cleanupStringStates_above:
  assumes "distinct (map fst (stringKeyStates w))" and "string_table_size w > 100"
  shows "stringKeyStates (cleanupStringStates w) = tl (stringKeyStates w)"
proof (cases "stringKeyStates w")
  case Nil
  then show ?thesis using assms by (simp add: string_table_size_def)
next
  case (Cons e rest)
  obtain oldestKey a where e: "e = (oldestKey, a)" by (cases e)
  have "oldestKey \<notin> fst ` set rest" using assms(1) Cons e by simp
  then have "filter (\<lambda>x. fst x \<noteq> oldestKey) rest = rest"
    by (auto simp add: filter_id_conv)
  then show ?thesis using assms(2) Cons e
    by (simp add: cleanupStringStates_def string_table_size_def)
qed

lemma cleanupStringStates_below:
  "string_table_size w \<le> 100 \<Longrightarrow> cleanupStringStates w = w"
  by (simp add: cleanupStringStates_def string_table_size_def)

lemma finally_block_table:
  "stringKeyStates (finally_block rnd clientKey w) =
     (case clientKey of
        ObjectKey _ \<Rightarrow> stringKeyStates w
      | StringKey _ \<Rightarrow> if rnd (random_draws w) then stringKeyStates (cleanupStringStates w)
                       else stringKeyStates w)"
  by (simp add: finally_block_def cleanupStringStates_def split: client_key.split list.split)

lemma getConnectionState_fresh_string:
  "storage_get (StringKey s) w = None \<Longrightarrow>
     stringKeyStates (snd (getConnectionState (StringKey s) m w)) = stringKeyStates w @ [(s, length (heap w))]"
  by (simp add: getConnectionState_def Let_def)

text \<open>
  Claim C8, as amended. The table of string-keyed states is trimmed by
  \<open>cleanupStringStates\<close> only: a run on a table of more than 100 entries deletes the
  oldest entry and no other, a run on at most 100 entries changes nothing. The
  \<open>finally\<close> block of \<open>executeQuery\<close> runs it for a string key when the draw of
  \<open>Math.random\<close> is below \<open>0.01\<close>, and not otherwise. Filing the state of a new string
  key appends an entry whatever the size of the table.
\<close>

theorem string_table_is_trimmed_by_cleanup_only:
  "(distinct (map fst (stringKeyStates w)) \<and> string_table_size w > 100 \<longrightarrow>
      stringKeyStates (cleanupStringStates w) = tl (stringKeyStates w)
      \<and> string_table_size (cleanupStringStates w) = string_table_size w - 1)
   \<and> (string_table_size w \<le> 100 \<longrightarrow> cleanupStringStates w = w)
   \<and> stringKeyStates (finally_block rnd (StringKey s) w) =
       (if rnd (random_draws w) then stringKeyStates (cleanupStringStates w) else stringKeyStates w)
   \<and> stringKeyStates (finally_block rnd (ObjectKey obj) w) = stringKeyStates w
   \<and> (storage_get (StringKey s) w = None \<longrightarrow>
       stringKeyStates (snd (getConnectionState (StringKey s) m w)) =
         stringKeyStates w @ [(s, length (heap w))])"
  using cleanupStringStates_above[of w] cleanupStringStates_below[of w]
    finally_block_table[of rnd "StringKey s" w] finally_block_table[of rnd "ObjectKey obj" w]
    getConnectionState_fresh_string[of s w m]
  by (simp add: string_table_size_def)

text \<open>The keys of the example tables are distinct.\<close>

lemma replicate_keys_distinct: "distinct (map (\<lambda>i. replicate i (c::char)) [0..<n])"
proof -
  have "inj_on (\<lambda>i. replicate i c) (set [0..<n])"
  proof (rule inj_onI)
    fix x y
    assume "replicate x c = replicate y c"
    then have "length (replicate x c) = length (replicate y c)" by simp
    then show "x = y" by simp
  qed
  then show ?thesis by (simp add: distinct_map)
qed

lemma world_with_string_keys_table:
  "map fst (stringKeyStates (world_with_string_keys n)) = map (\<lambda>i. replicate i CHR ''c'') [0..<n]"
  by (simp add: world_with_string_keys_def comp_def)

text \<open>
  Witness for C8: a table of 101 entries is cut to 100 by a run of the cleanup, a
  table of 100 entries is left alone, and a \<open>finally\<close> block whose draw is not below
  \<open>0.01\<close> leaves 101 entries.
\<close>

theorem string_table_is_trimmed_by_cleanup_only_witness:
  "string_table_size (world_with_string_keys 101) = 101
   \<and> string_table_size (cleanupStringStates (world_with_string_keys 101)) = 100
   \<and> cleanupStringStates (world_with_string_keys 100) = world_with_string_keys 100
   \<and> string_table_size (finally_block never (StringKey ''x'') (world_with_string_keys 101)) = 101"
proof -
  have d: "distinct (map fst (stringKeyStates (world_with_string_keys 101)))"
    by (simp only: world_with_string_keys_table replicate_keys_distinct)
  have s101: "string_table_size (world_with_string_keys 101) = 101"
    by (simp add: string_table_size_def world_with_string_keys_def)
  have s100: "string_table_size (world_with_string_keys 100) = 100"
    by (simp add: string_table_size_def world_with_string_keys_def)
  show ?thesis
    using string_table_is_trimmed_by_cleanup_only[of "world_with_string_keys 101" never "''x''" 0 2]
      string_table_is_trimmed_by_cleanup_only[of "world_with_string_keys 100" never "''x''" 0 2]
      d s101 s100
    by (simp add: never_def string_table_size_def)
qed

text \<open>A named query on a new string key files one more state when no cleanup runs.\<close>

lemma executeQuery_fresh_string_key:
  assumes fresh: "storage_get (StringKey s) w = None" and named: "n \<noteq> []" "vals \<noteq> []"
  shows "\<exists>r w'. executeQuery (Suc 0) mgr digest accepting_executor never (StringKey s) (Some n)
                   queryText vals arrayMode w = Some (r, w')
                \<and> stringKeyStates w' = stringKeyStates w @ [(s, length (heap w))]"
proof -
  let ?key = "generateStatementKey digest queryText (length vals)"
  obtain a w0 where st: "getConnectionState (StringKey s) (maxPreparedStatements mgr) w = (a, w0)"
    by (cases "getConnectionState (StringKey s) (maxPreparedStatements mgr) w")
  have t0: "stringKeyStates w0 = stringKeyStates w @ [(s, length (heap w))]"
    using getConnectionState_fresh_string[OF fresh, of "maxPreparedStatements mgr"] st by simp
  obtain p w1 where ep: "ensure_prepared mgr accepting_executor a ?key queryText vals w0 = (p, w1)"
    by (cases "ensure_prepared mgr accepting_executor a ?key queryText vals w0")
  have t1: "stringKeyStates w1 = stringKeyStates w0"
    using ensure_prepared_frame[of mgr accepting_executor a ?key queryText vals w0] ep by simp
  show ?thesis
  proof (cases p)
    case None
    then show ?thesis using named st ep t0 t1
      by (simp add: executeQuery_def direct_execution_def call_executor_def accepting_executor_def)
  next
    case (Some stmt)
    then show ?thesis using named st ep t0 t1
      by (simp add: executeQuery_def call_executor_def accepting_executor_def
          finally_block_table never_def)
  qed
qed

lemma run_queries_fresh_string_keys:
  assumes "distinct ks" and "set ks \<inter> fst ` set (stringKeyStates w) = {}"
  shows "\<exists>w'. run_queries (Suc 0) mgr digest accepting_executor never
                 (map (\<lambda>k. (StringKey k, Some ''q1'', ''select a($1)'', [VOther ''1''])) ks) w = Some w'
              \<and> map fst (stringKeyStates w') = map fst (stringKeyStates w) @ ks"
  using assms
proof (induction ks arbitrary: w)
  case Nil
  then show ?case by simp
next
  case (Cons k ks)
  have fresh: "storage_get (StringKey k) w = None"
    using Cons.prems(2) by (auto simp add: storage_get_def map_of_eq_None_iff)
  obtain r w1 where step:
    "executeQuery (Suc 0) mgr digest accepting_executor never (StringKey k) (Some ''q1'')
       ''select a($1)'' [VOther ''1''] False w = Some (r, w1)"
    and t1: "stringKeyStates w1 = stringKeyStates w @ [(k, length (heap w))]"
    using executeQuery_fresh_string_key[OF fresh, of "''q1''" "[VOther ''1'']" mgr digest "''select a($1)''" False]
    by auto
  have "set ks \<inter> fst ` set (stringKeyStates w1) = {}"
    using Cons.prems t1 by auto
  then obtain w' where rest:
    "run_queries (Suc 0) mgr digest accepting_executor never
       (map (\<lambda>k. (StringKey k, Some ''q1'', ''select a($1)'', [VOther ''1''])) ks) w1 = Some w'"
    and t': "map fst (stringKeyStates w') = map fst (stringKeyStates w1) @ ks"
    using Cons.IH[of w1] Cons.prems(1) by auto
  show ?case using step rest t' t1 by simp
qed

text \<open>
  Counterexample to C8 as stated: 101 connections with distinct string keys run one
  named query each and no draw of \<open>Math.random\<close> is below \<open>0.01\<close>; the table then
  holds 101 entries.
\<close>

theorem string_table_grows_past_100:
  "map_option string_table_size
     (run_queries (Suc 0) example_manager md5_of_examples accepting_executor never
        (string_key_queries 101) empty_world) = Some 101"
proof -
  have q: "string_key_queries 101 =
      map (\<lambda>k. (StringKey k, Some ''q1'', ''select a($1)'', [VOther ''1'']))
        (map (\<lambda>i. replicate i CHR ''c'') [0..<101])"
    by (simp add: string_key_queries_def comp_def)
  obtain w' where run: "run_queries (Suc 0) example_manager md5_of_examples accepting_executor never
        (string_key_queries 101) empty_world = Some w'"
    and keys: "map fst (stringKeyStates w') =
        map fst (stringKeyStates empty_world) @ map (\<lambda>i. replicate i CHR ''c'') [0..<101]"
    using run_queries_fresh_string_keys[OF replicate_keys_distinct[of "CHR ''c''" 101],
        of empty_world example_manager md5_of_examples]
    unfolding q by (auto simp add: empty_world_def)
  have "length (map fst (stringKeyStates w')) = 101"
    unfolding keys by (simp add: empty_world_def)
  then show ?thesis using run by (simp add: string_table_size_def)
qed

section \<open>Releasing a pool twice\<close>

text \<open>
  The second \<open>releaseOnce\<close> throws, whatever the callback would do. The adapters end
  their driver at most once, and their second \<open>release\<close> returns.
\<close>

lemma releaseOnce_first:
  "\<not> released p \<Longrightarrow> releaseOnce None p = (Inr (), p\<lparr>released := True, release_calls := release_calls p + 1\<rparr>)"
  by (simp add: releaseOnce_def)

lemma releaseOnce_again:
  "released p \<Longrightarrow> releaseOnce r p = (Inl (Error ''Release called twice on the same PgPool''), p)"
  by (simp add: releaseOnce_def)

lemma node_postgres_release_again:
  "node_postgres_release r (snd (node_postgres_release None ad)) = (Inr (), snd (node_postgres_release None ad))"
  by (auto simp add: node_postgres_release_def)

lemma postgresjs_release_ends_once:
  "driver_ended (fst (snd (postgresjs_release exec r (snd (postgresjs_release exec None (ad, w))))))
     = driver_ended (fst (snd (postgresjs_release exec None (ad, w))))
   \<and> fst (postgresjs_release exec r (snd (postgresjs_release exec None (ad, w)))) = Inr ()"
  by (auto simp add: postgresjs_release_def Let_def)

lemma pglite_release_ends_once:
  "driver_ended (fst (snd (pglite_release exec r (snd (pglite_release exec None (ad, w))))))
     = driver_ended (fst (snd (pglite_release exec None (ad, w))))
   \<and> fst (pglite_release exec r (snd (pglite_release exec None (ad, w)))) = Inr ()"
  by (auto simp add: pglite_release_def Let_def)


text \<open>
  Claim C7: if \<open>release\<close> is called twice on a pool, the first call succeeds and the
  second fails with a double-release error. This holds for the pool made by
  \<open>createPgPoolFromPool\<close>, whose second \<open>release\<close> throws
  \<open>Release called twice on the same PgPool\<close> and does not call the callback again. The
  \<open>release\<close> of the three adapters tests the driver variable instead: after a first
  \<open>release\<close> that succeeded, the second one returns normally.
\<close>

theorem second_release_fails_for_createPgPoolFromPool_only:
  "(\<not> released p \<longrightarrow>
      fst (releaseOnce None p) = Inr ()
      \<and> fst (releaseOnce r (snd (releaseOnce None p)))
          = Inl (Error ''Release called twice on the same PgPool'')
      \<and> release_calls (snd (releaseOnce r (snd (releaseOnce None p)))) = release_calls p + 1)
   \<and> fst (node_postgres_release None ad) = Inr ()
   \<and> fst (node_postgres_release r' (snd (node_postgres_release None ad))) = Inr ()
   \<and> fst (postgresjs_release exec None (ad, w)) = Inr ()
   \<and> fst (postgresjs_release exec r' (snd (postgresjs_release exec None (ad, w)))) = Inr ()
   \<and> fst (pglite_release exec None (ad, w)) = Inr ()
   \<and> fst (pglite_release exec r' (snd (pglite_release exec None (ad, w)))) = Inr ()"
  by (auto simp add: releaseOnce_def node_postgres_release_def postgresjs_release_def
        pglite_release_def Let_def)


text \<open>A fresh pool of \<open>createPgPoolFromPool\<close>, released twice.\<close>

theorem second_release_fails_for_createPgPoolFromPool_only_witness:
  "fst (releaseOnce None \<lparr>released = False, release_calls = 0\<rparr>) = Inr ()
   \<and> fst (releaseOnce None (snd (releaseOnce None \<lparr>released = False, release_calls = 0\<rparr>)))
       = Inl (Error ''Release called twice on the same PgPool'')
   \<and> release_calls (snd (releaseOnce None (snd (releaseOnce None \<lparr>released = False, release_calls = 0\<rparr>)))) = 1"
  using second_release_fails_for_createPgPoolFromPool_only
          [where p = "\<lparr>released = False, release_calls = 0\<rparr>" and r = None and r' = None
             and ad = "\<lparr>driver_present = True, driver_supplied = False, driver_ended = 0, driver_object = 0\<rparr>"
             and exec = accepting_executor and w = empty_world]
  by simp


text \<open>
  The adapter of \<open>createNodePostgresAdapter\<close> that made its own pool: the second
  \<open>release\<close> returns, and the pool has been ended once.
\<close>

theorem adapter_release_twice_succeeds:
  "node_postgres_release None
     (snd (node_postgres_release None
        \<lparr>driver_present = True, driver_supplied = False, driver_ended = 0, driver_object = 0\<rparr>))
   = (Inr (), \<lparr>driver_present = False, driver_supplied = False, driver_ended = 1, driver_object = 0\<rparr>)"
  by (simp add: node_postgres_release_def)

section \<open>The subscriber: listen, unlisten and release\<close>

text \<open>
  A consumer that joins a topic which already has consumers starts no second listen;
  the first consumer of a topic starts exactly one.
\<close>

lemma subscribe_shares_the_listen:
  "alive s \<Longrightarrow> map_of (topics s) topic = Some its \<Longrightarrow>
     effects (snd (subscribe pool topic s)) = effects s \<and> pending (snd (subscribe pool topic s)) = pending s"
  by (simp add: subscribe_def Let_def)

lemma first_subscribe_listens:
  "alive s \<Longrightarrow> map_of (topics s) topic = None \<Longrightarrow>
     effects (snd (subscribe pool topic s)) = effects s @ [ListenCall topic]"
  by (simp add: subscribe_def Let_def listen_def)

text \<open>
  Claim C6: for every topic the pool's \<open>listen\<close> is invoked once, by the first consumer,
  and the stored unlisten handle is invoked exactly once, when the last consumer
  detaches. The part on \<open>listen\<close> is \<open>first_subscribe_listens\<close> and
  \<open>subscribe_shares_the_listen\<close>, and two consumers that return one after the other
  give one listen and one call of the handle (the last conjunct below). The part on
  the handle does not hold on every run. \<open>unlisten\<close> removes the handle from
  \<open>unlisteners\<close> only after the handle's promise has settled, so when \<open>release\<close>
  returns the only consumer of \<open>chat\<close>, the handle \<open>0\<close> is called by \<open>doFinally\<close> and,
  still stored, once more by the loop of \<open>release\<close> over \<open>unlisteners\<close>: two calls. And
  a consumer that returns before the promise of \<open>listen\<close> has settled finds no handle
  yet: the handle is stored afterwards and never called.
\<close>

theorem unlisten_handle_is_called_twice_on_release:
  "effects (sub_run fulfilling_pool [Subscribe ''chat'', Settle, Release, Settle, Settle] new_PgSubscriber)
     = [ListenCall ''chat'', ReturnCall 0, UnlistenCall 0, UnlistenCall 0]
   \<and> effects (sub_run fulfilling_pool [Subscribe ''chat'', Return 0, Settle, Settle] new_PgSubscriber)
     = [ListenCall ''chat'', ReturnCall 0]
   \<and> unlisteners (sub_run fulfilling_pool [Subscribe ''chat'', Return 0, Settle, Settle] new_PgSubscriber)
     = [(''chat'', 0, 0)]
   \<and> effects (sub_run fulfilling_pool
        [Subscribe ''chat'', Subscribe ''chat'', Settle, Return 0, Settle, Return 1, Settle]
        new_PgSubscriber)
     = [ListenCall ''chat'', ReturnCall 0, ReturnCall 1, UnlistenCall 0]"
  by code_simp


text \<open>None of the operations on a subscriber makes a released subscriber alive again.\<close>

lemma unlisten_alive: "alive (unlisten pool topic s) = alive s"
  by (simp add: unlisten_def split: option.split prod.split)

lemma doFinally_alive: "alive (doFinally pool i s) = alive s"
  by (simp add: doFinally_def Let_def unlisten_alive split: option.split)

lemma iterator_return_alive: "alive (iterator_return pool i s) = alive s"
  by (simp add: iterator_return_def doFinally_alive)

lemma iterator_throw_alive: "alive (iterator_throw pool i s) = alive s"
  by (simp add: iterator_throw_def doFinally_alive)

lemma iterator_next_alive: "alive (iterator_next i s) = alive s"
  by (simp add: iterator_next_def Let_def split: list.split)

lemma recv_alive: "alive (recv payload i s) = alive s"
  by (simp add: recv_def Let_def split: list.split)

lemma fold_recv_alive: "alive (fold (recv payload) ls s) = alive s"
  by (induction ls arbitrary: s) (simp_all add: recv_alive)

lemma emit_alive: "alive (emit topic payload s) = alive s"
  by (simp add: emit_def fold_recv_alive split: option.split)

lemma release_unlisteners_alive: "alive (release_unlisteners pool from s) = alive s"
  by (simp add: release_unlisteners_def split: list.split prod.split)

lemma run_continuation_alive: "alive (run_continuation pool k s) = alive s"
  by (cases k)
     (simp_all add: run_continuation_def release_unlisteners_alive split: option.split prod.split)

lemma fold_run_continuation_alive: "alive (fold (run_continuation pool) ks s) = alive s"
  by (induction ks arbitrary: s) (simp_all add: run_continuation_alive)

lemma settle_alive: "alive (settle pool s) = alive s"
  by (simp add: settle_def fold_run_continuation_alive)

lemma return_loop_alive: "alive (return_loop n idx pool topic s) = alive s"
  by (induction n idx pool topic s rule: return_loop.induct)
     (simp_all add: iterator_return_alive split: option.split)

lemma release_topics_alive:
  "alive (fold (\<lambda>topic st.
                   (let st1 = return_loop
                                (case map_of (topics st) topic of None \<Rightarrow> 0 | Some its \<Rightarrow> length its)
                                0 pool topic st
                    in st1\<lparr>topics := map_delete topic (topics st1)\<rparr>)) ts s) = alive s"
  by (induction ts arbitrary: s) (simp_all add: return_loop_alive Let_def)

lemma release_not_alive: "\<not> alive (release pool s)"
  by (simp add: release_def release_unlisteners_alive release_topics_alive)

lemma release_released: "\<not> alive s \<Longrightarrow> release pool s = s"
  by (simp add: release_def)

lemma subscribe_released: "\<not> alive s \<Longrightarrow> snd (subscribe pool topic s) = s"
  by (simp add: subscribe_def)

lemma sub_step_stays_released: "\<not> alive s \<Longrightarrow> \<not> alive (sub_step pool op s)"
  by (cases op)
     (simp_all add: sub_step_def subscribe_released iterator_next_alive iterator_return_alive
        iterator_throw_alive emit_alive release_released settle_alive)

lemma sub_run_stays_released: "\<not> alive s \<Longrightarrow> \<not> alive (sub_run pool ops s)"
  unfolding sub_run_def
  by (induction ops arbitrary: s) (simp_all add: sub_step_stays_released)


text \<open>
  Claim C10: a second \<open>release\<close> of a subscriber is a no-op. Whatever is done with the
  subscriber after its first release, a further \<open>release\<close> leaves the state as it is: in
  particular it adds no iterator return and no call of an unlisten handle to
  \<open>effects\<close>, and it has no way to fail.
\<close>

theorem second_release_is_a_no_op:
  "release pool (sub_run pool ops (release pool s)) = sub_run pool ops (release pool s)
   \<and> effects (release pool (sub_run pool ops (release pool s))) = effects (sub_run pool ops (release pool s))
   \<and> \<not> alive (release pool s)"
  using sub_run_stays_released[OF release_not_alive, of pool ops pool s]
  by (simp add: release_released release_not_alive)

end
